theory Spec2Isabelle
  imports Main "HOL-Library.Word" "HOL-Library.Sublist"
begin

section \<open>Data model of the schema store\<close>

text \<open>
  \<^verbatim>\<open>common.Ts\<close> and \<^verbatim>\<open>Timestamp\<close> are unsigned 64-bit integers, \<^verbatim>\<open>Job.Version\<close>
  and the identifiers of tables and databases are signed 64-bit integers. All of them are
  64-bit words: \<open>\<le>\<close> and \<open><\<close> compare unsigned, \<open>\<le>s\<close> and \<open><s\<close> compare signed.
  Identifiers are only compared for equality. A dispatcher identifier and the schema of
  a table (\<^verbatim>\<open>TableInfo\<close>) are opaque and stand as numbers.
\<close>

type_synonym Ts = "64 word"
type_synonym TableID = "64 word"
type_synonym DatabaseID = "64 word"
type_synonym DispatcherID = nat
type_synonym TableInfo = nat

text \<open>
  \<^verbatim>\<open>model.Job\<close> is a type of the TiDB parser library. The fields the schema store reads
  are kept. The action types that \<^verbatim>\<open>handleResolvedDDLJob\<close> names are constructors, every
  other action type is \<open>ActionOther\<close> with its code. \<open>DecodeArgsErr\<close> is the error that
  the library's \<^verbatim>\<open>job.DecodeArgs\<close> returns for the rename-tables argument shape.
\<close>

datatype ActionType =
    ActionCreateSchema
  | ActionModifySchemaCharsetAndCollate
  | ActionDropSchema
  | ActionRenameTables
  | ActionCreateTables
  | ActionCreateTable
  | ActionCreateView
  | ActionRecoverTable
  | ActionOther nat

text \<open>An error made by \<^verbatim>\<open>errors.New\<close> is its message; other errors come from outside.\<close>

datatype error = ErrorsNew string | ExternalError string

record BinlogInfo =
  FinishedTS :: "64 word"
  BinlogTableInfo :: TableInfo

record model_Job =
  Type :: ActionType
  SchemaID :: "64 word"
  TableID :: "64 word"
  SchemaName :: string
  Version :: "64 word"
  BinlogInfo :: BinlogInfo
  DecodeArgsErr :: "error option"

record DDLEvent =
  Job :: model_Job
  CommitTS :: Ts

section \<open>The unsorted DDL cache\<close>

text \<open>
  The cache holds a \<^verbatim>\<open>btree.BTreeG[DDLEvent]\<close> of the google/btree library, ordered by
  \<^verbatim>\<open>ddlEventLess\<close>. The library is not part of the repository. Its tree is an ordered
  set under the comparison it is given: two items neither of which is less than the other
  are the same key. The tree is represented by the list of its items in ascending order,
  and the three operations the cache calls are written on that list.
\<close>

definition ddlEventLess :: "DDLEvent \<Rightarrow> DDLEvent \<Rightarrow> bool" where
  "ddlEventLess a b = (CommitTS a < CommitTS b)"

text \<open>
  \<^verbatim>\<open>ReplaceOrInsert(item)\<close> adds the item; when an item with the same key is in the
  tree it is replaced and returned.
\<close>

fun ReplaceOrInsert :: "('a \<Rightarrow> 'a \<Rightarrow> bool) \<Rightarrow> 'a \<Rightarrow> 'a list \<Rightarrow> 'a option \<times> 'a list" where
  "ReplaceOrInsert lt x [] = (None, [x])"
| "ReplaceOrInsert lt x (y # ys) =
     (if lt x y then (None, x # y # ys)
      else if lt y x then
        (case ReplaceOrInsert lt x ys of (old, ys') \<Rightarrow> (old, y # ys'))
      else (Some y, x # ys))"

text \<open>
  \<^verbatim>\<open>Ascend(iterator)\<close> calls the iterator on every item in ascending order until it
  returns false. The iterator of the source is a closure that appends to a local slice;
  here it takes and returns what it has collected.
\<close>

fun Ascend :: "'a list \<Rightarrow> ('a \<Rightarrow> 's \<Rightarrow> bool \<times> 's) \<Rightarrow> 's \<Rightarrow> 's" where
  "Ascend [] iterator acc = acc"
| "Ascend (x # xs) iterator acc =
     (case iterator x acc of
        (True, acc') \<Rightarrow> Ascend xs iterator acc'
      | (False, acc') \<Rightarrow> acc')"

text \<open>\<^verbatim>\<open>Delete(item)\<close> removes the item with the key of the argument, if there is one.\<close>

fun Delete :: "('a \<Rightarrow> 'a \<Rightarrow> bool) \<Rightarrow> 'a \<Rightarrow> 'a list \<Rightarrow> 'a list" where
  "Delete lt x [] = []"
| "Delete lt x (y # ys) =
     (if \<not> lt x y \<and> \<not> lt y x then ys else y # Delete lt x ys)"

text \<open>
  The cache itself. Its mutex is taken at the start of each of the two methods and
  released by a deferred unlock when the method returns, so it is free between calls and
  is left out.
\<close>

record unSortedDDLCache =
  ddlEvents :: "DDLEvent list"

definition newUnSortedDDLCache :: unSortedDDLCache where
  "newUnSortedDDLCache = \<lparr>ddlEvents = []\<rparr>"

text \<open>
  \<^verbatim>\<open>log.Fatal\<close> writes the message and ends the process: a call that reaches it has no
  result state.
\<close>

datatype fatal = LogFatal string

definition addDDL :: "unSortedDDLCache \<Rightarrow> DDLEvent \<Rightarrow> fatal + unSortedDDLCache" where
  "addDDL c ddlEvent =
     (case ReplaceOrInsert ddlEventLess ddlEvent (ddlEvents c) of
        (Some oldEvent, tree) \<Rightarrow> Inl (LogFatal ''commitTS conflict'')
      | (None, tree) \<Rightarrow> Inr (c\<lparr>ddlEvents := tree\<rparr>))"

definition getSortedDDLEventBeforeTS ::
  "unSortedDDLCache \<Rightarrow> Ts \<Rightarrow> DDLEvent list \<times> unSortedDDLCache" where
  "getSortedDDLEventBeforeTS c ts =
     (let events = Ascend (ddlEvents c)
                     (\<lambda>event events.
                        if CommitTS event \<le> ts then (True, events @ [event])
                        else (False, events))
                     [];
          tree = foldl (\<lambda>tree event. Delete ddlEventLess event tree) (ddlEvents c) events
      in (events, c\<lparr>ddlEvents := tree\<rparr>))"

text \<open>
  The order invariant of the tree: the items are strictly ascending in commit
  timestamp, so no two of them share one.
\<close>

definition cacheOrdered :: "unSortedDDLCache \<Rightarrow> bool" where
  "cacheOrdered c = sorted_wrt ddlEventLess (ddlEvents c)"

section \<open>Databases and versioned table info stores\<close>

definition MaxUint64 :: "64 word" where
  "MaxUint64 = 18446744073709551615"

record DatabaseInfo =
  Name :: string
  Tables :: "TableID list"
  CreateVersion :: Ts
  DeleteVersion :: Ts

type_synonym DatabaseInfoMap = "DatabaseID \<rightharpoonup> DatabaseInfo"

text \<open>
  Modelled from the spec: \<^verbatim>\<open>DatabaseInfo.isDeleted\<close>, whose file is not among the source files.
  The spec says that the delete version is +infinity while the database is live;
  \<^verbatim>\<open>createSchema\<close> writes \<^verbatim>\<open>math.MaxUint64\<close> for it.
\<close>

definition isDeleted :: "DatabaseInfo \<Rightarrow> bool" where
  "isDeleted databaseInfo = (DeleteVersion databaseInfo \<noteq> MaxUint64)"

text \<open>
  Modelled from the spec: the versioned table info store, whose file is not among the source files.
  The spec describes it as an ordered list of versions with their schemas, the map of
  the registered dispatchers to their send timestamps, and a one-shot latch.
\<close>

record versionedTableInfoStore =
  storeTableID :: TableID
  infos :: "(Ts \<times> TableInfo) list"
  dispatchers :: "DispatcherID \<rightharpoonup> Ts"
  initialized :: bool

type_synonym TableInfoStoreMap = "TableID \<rightharpoonup> versionedTableInfoStore"

definition newEmptyVersionedTableInfoStore :: "TableID \<Rightarrow> versionedTableInfoStore" where
  "newEmptyVersionedTableInfoStore tableID =
     \<lparr>storeTableID = tableID, infos = [], dispatchers = Map.empty, initialized = False\<rparr>"

text \<open>
  Modelled from the spec: "RegisterDispatcher(id, startTs) adds to map (idempotent by
  id)".
\<close>

definition registerDispatcher ::
  "versionedTableInfoStore \<Rightarrow> DispatcherID \<Rightarrow> Ts \<Rightarrow> versionedTableInfoStore" where
  "registerDispatcher v dispatcherID ts = v\<lparr>dispatchers := (dispatchers v)(dispatcherID \<mapsto> ts)\<rparr>"

text \<open>
  Modelled from the spec: "UnregisterDispatcher(id) removes; returns true iff the last
  dispatcher was removed (caller may then delete the store)". The result is true when
  no dispatcher is left on the store.
\<close>

definition unregisterDispatcher ::
  "versionedTableInfoStore \<Rightarrow> DispatcherID \<Rightarrow> bool \<times> versionedTableInfoStore" where
  "unregisterDispatcher v dispatcherID =
     (let remaining = (dispatchers v)(dispatcherID := None)
      in (dom remaining = {}, v\<lparr>dispatchers := remaining\<rparr>))"

text \<open>Modelled from the spec: "SetInitialized", the setting of the one-shot latch.\<close>

definition setTableInfoInitialized :: "versionedTableInfoStore \<Rightarrow> versionedTableInfoStore" where
  "setTableInfoInitialized v = v\<lparr>initialized := True\<rparr>"

text \<open>
  Modelled from the spec: "ApplyDDL(job) appends a new version using
  job.binlogInfo.finishedTs".
\<close>

definition applyDDL :: "versionedTableInfoStore \<Rightarrow> model_Job \<Rightarrow> versionedTableInfoStore" where
  "applyDDL v job =
     v\<lparr>infos := infos v @ [(FinishedTS (BinlogInfo job), BinlogTableInfo (BinlogInfo job))]\<rparr>"

text \<open>
  Modelled from the spec: "FirstVersion() returns Ts", the version of the first entry.
  The spec gives no value for a store without entries; +infinity is taken, so that such
  a store covers no start timestamp. No theorem below depends on this value.
\<close>

definition getFirstVersion :: "versionedTableInfoStore \<Rightarrow> Ts" where
  "getFirstVersion v = (case infos v of [] \<Rightarrow> MaxUint64 | (version, info) # rest \<Rightarrow> version)"

text \<open>
  Modelled from the spec: "CheckAndCopyTailFrom(other), used when replacing an older
  store with a longer-history one without losing already-applied tail": the entries of
  the other store that are newer than every entry of this one are appended.
\<close>

definition checkAndCopyTailFrom ::
  "versionedTableInfoStore \<Rightarrow> versionedTableInfoStore \<Rightarrow> versionedTableInfoStore" where
  "checkAndCopyTailFrom v src =
     v\<lparr>infos := infos v
            @ filter (\<lambda>(version, info). list_all (\<lambda>(mine, i). mine < version) (infos v))
                (infos src)\<rparr>"

text \<open>
  Modelled from the spec: the registered dispatchers of the replaced store are
  transferred ("merge the tail and transfer registered dispatchers").
\<close>

definition copyRegisteredDispatchers ::
  "versionedTableInfoStore \<Rightarrow> versionedTableInfoStore \<Rightarrow> versionedTableInfoStore" where
  "copyRegisteredDispatchers v src = v\<lparr>dispatchers := dispatchers v ++ dispatchers src\<rparr>"

section \<open>The schema store\<close>

text \<open>
  How a call or a loop iteration ends: the loop goes on, the function returns its error
  value, \<^verbatim>\<open>log.Fatal\<close> or a fatal runtime error ends the process, \<^verbatim>\<open>log.Panic\<close> or a
  runtime error panics, or the goroutine waits for something that no other goroutine
  is there to provide (a held mutex, a latch not set).
\<close>

datatype control =
    Continue
  | Return "error option"
  | Fatal string
  | Panic string
  | BlocksForever

subsection \<open>Applying a resolved DDL job\<close>

definition fillSchemaName :: "model_Job \<Rightarrow> DatabaseInfoMap \<Rightarrow> error + model_Job" where
  "fillSchemaName job databaseMap =
     (case databaseMap (SchemaID job) of
        None \<Rightarrow> Inl (ErrorsNew ''database not found'')
      | Some databaseInfo \<Rightarrow>
          (if CreateVersion databaseInfo > FinishedTS (BinlogInfo job)
           then Inl (ErrorsNew ''database is not created'')
           else if DeleteVersion databaseInfo < FinishedTS (BinlogInfo job)
           then Inl (ErrorsNew ''database is deleted'')
           else Inr (job\<lparr>SchemaName := Name databaseInfo\<rparr>)))"

definition createSchema :: "model_Job \<Rightarrow> DatabaseInfoMap \<Rightarrow> error + DatabaseInfoMap" where
  "createSchema job databaseMap =
     (case databaseMap (SchemaID job) of
        Some existing \<Rightarrow> Inl (ErrorsNew ''database already exists'')
      | None \<Rightarrow>
          Inr (databaseMap(SchemaID job \<mapsto>
                 \<lparr>Name = SchemaName job,
                  Tables = [],
                  CreateVersion = FinishedTS (BinlogInfo job),
                  DeleteVersion = MaxUint64\<rparr>)))"

definition dropSchema :: "model_Job \<Rightarrow> DatabaseInfoMap \<Rightarrow> error + DatabaseInfoMap" where
  "dropSchema job databaseMap =
     (case databaseMap (SchemaID job) of
        None \<Rightarrow> Inl (ErrorsNew ''database not found'')
      | Some databaseInfo \<Rightarrow>
          (if isDeleted databaseInfo
           then Inl (ErrorsNew ''database is already deleted'')
           else Inr (databaseMap(SchemaID job \<mapsto>
                       databaseInfo\<lparr>DeleteVersion := FinishedTS (BinlogInfo job)\<rparr>))))"

text \<open>
  The result of \<^verbatim>\<open>handleResolvedDDLJob\<close>: the two maps as the job leaves them when it
  returns nil, the error when it returns one (no path that returns an error has
  changed a map), or a panic.
\<close>

datatype handled =
    Done DatabaseInfoMap TableInfoStoreMap
  | Failed error
  | Panicked string

definition handleResolvedDDLJob ::
  "model_Job \<Rightarrow> DatabaseInfoMap \<Rightarrow> TableInfoStoreMap \<Rightarrow> handled" where
  "handleResolvedDDLJob job0 databaseMap tableInfoStoreMap =
     (case fillSchemaName job0 databaseMap of
        Inl err \<Rightarrow> Failed err
      | Inr job \<Rightarrow>
          (let newTable =
                (if tableInfoStoreMap (TableID job) \<noteq> None
                 then Panicked ''should not happened''
                 else Done databaseMap tableInfoStoreMap)
          in (case Type job of
               ActionCreateSchema \<Rightarrow>
                 (case createSchema job databaseMap of
                    Inl err \<Rightarrow> Failed err
                  | Inr databaseMap' \<Rightarrow> Done databaseMap' tableInfoStoreMap)
             | ActionModifySchemaCharsetAndCollate \<Rightarrow> Done databaseMap tableInfoStoreMap
             | ActionDropSchema \<Rightarrow>
                 (case dropSchema job databaseMap of
                    Inl err \<Rightarrow> Failed err
                  | Inr databaseMap' \<Rightarrow> Done databaseMap' tableInfoStoreMap)
             | ActionRenameTables \<Rightarrow>
                 (case DecodeArgsErr job of
                    Some err \<Rightarrow> Failed err
                  | None \<Rightarrow> Done databaseMap tableInfoStoreMap)
             | ActionCreateTables \<Rightarrow> newTable
             | ActionCreateTable \<Rightarrow> newTable
             | ActionCreateView \<Rightarrow> newTable
             | ActionRecoverTable \<Rightarrow> newTable
             | ActionOther code \<Rightarrow>
                 (case tableInfoStoreMap (TableID job) of
                    None \<Rightarrow> Failed (ErrorsNew ''table not found'')
                  | Some store \<Rightarrow>
                      Done databaseMap (tableInfoStoreMap(TableID job \<mapsto> applyDDL store job))))))"

subsection \<open>The state of the schema store\<close>

text \<open>
  The persistent storage (\<^verbatim>\<open>dataStorage\<close>) is not among the source files. Its state
  is a type parameter and the four methods the schema store calls are the fields of an
  interface record, so every statement below holds for every persistent storage. A
  method returns its error, if any, and the storage as it leaves it. \<^verbatim>\<open>buildVersionedTableInfoStore\<close>
  fills the store it is given and takes the callback that resolves a schema name.
\<close>

record 'ps persistentStorage =
  writeDDLEvent :: "'ps \<Rightarrow> DDLEvent \<Rightarrow> error option \<times> 'ps"
  updateStoreMeta :: "'ps \<Rightarrow> Ts \<Rightarrow> Ts \<Rightarrow> Ts \<Rightarrow> error option \<times> 'ps"
  getGCTS :: "'ps \<Rightarrow> Ts"
  buildVersionedTableInfoStore ::
    "'ps \<Rightarrow> versionedTableInfoStore \<Rightarrow> Ts \<Rightarrow> Ts \<Rightarrow> (DatabaseID \<Rightarrow> error + string)
       \<Rightarrow> error option \<times> versionedTableInfoStore"

record DispatcherInfo =
  tableID :: TableID

type_synonym DispatcherInfoMap = "DispatcherID \<rightharpoonup> DispatcherInfo"

text \<open>
  The fields of \<^verbatim>\<open>schemaStore\<close>. The mutex \<open>mu\<close> is true while it is held. The event
  channel is the list of values the drain loop receives, an argument of the loop. The
  DDL job fetcher and the upstream storage are outside the repository.
\<close>

record 'ps schemaStore =
  unsortedCache :: unSortedDDLCache
  dataStorage :: 'ps
  mu :: bool
  finishedDDLTS :: Ts
  schemaVersion :: "64 word"
  databaseMap :: DatabaseInfoMap
  tableInfoStoreMap :: TableInfoStoreMap
  dispatchersMap :: DispatcherInfoMap

subsection \<open>The drain loop\<close>

text \<open>
  The loop over \<^verbatim>\<open>resolvedEvents\<close> in \<^verbatim>\<open>batchCommitAndUpdateWatermark\<close>, run
  with the mutex held. The last argument and result is not a variable of the source:
  it lists, in order, the jobs that \<^verbatim>\<open>handleResolvedDDLJob\<close> has applied, so that the
  order of application can be stated.
\<close>

fun applyResolvedEvents ::
  "'ps schemaStore \<Rightarrow> DDLEvent list \<Rightarrow> model_Job list
     \<Rightarrow> control \<times> 'ps schemaStore \<times> model_Job list" where
  "applyResolvedEvents s [] applied = (Continue, s, applied)"
| "applyResolvedEvents s (event # rest) applied =
     (if Version (Job event) \<le>s schemaVersion s
         \<or> FinishedTS (BinlogInfo (Job event)) \<le> finishedDDLTS s
      then applyResolvedEvents s rest applied
      else (case handleResolvedDDLJob (Job event) (databaseMap s) (tableInfoStoreMap s) of
              Failed err \<Rightarrow> (Return (Some err), s, applied)
            | Panicked msg \<Rightarrow> (Panic msg, s, applied)
            | Done databaseMap' tableInfoStoreMap' \<Rightarrow>
                applyResolvedEvents
                  (s\<lparr>databaseMap := databaseMap',
                     tableInfoStoreMap := tableInfoStoreMap',
                     schemaVersion := Version (Job event),
                     finishedDDLTS := FinishedTS (BinlogInfo (Job event))\<rparr>)
                  rest (applied @ [Job event])))"

text \<open>
  What the loop receives from \<^verbatim>\<open>eventCh\<close>, a channel of \<^verbatim>\<open>interface{}\<close>: a DDL event,
  a resolved timestamp, or a value of another type.
\<close>

datatype chan_data = DDLEventData DDLEvent | TsData Ts | OtherData

text \<open>
  One iteration of the loop on a received value. \<open>deferred\<close> counts the deferred
  \<^verbatim>\<open>s.mu.Unlock()\<close> calls of the running activation: the source defers the unlock inside
  the loop, so it runs when the function returns, not when the iteration ends. The
  cache methods are called \<^verbatim>\<open>addDDLEvent\<close> and \<^verbatim>\<open>fetchSortedDDLEventBeforeTS\<close> in the
  schema store and \<^verbatim>\<open>addDDL\<close> and \<^verbatim>\<open>getSortedDDLEventBeforeTS\<close> in the cache.
\<close>

definition drainIteration ::
  "'ps persistentStorage \<Rightarrow> chan_data \<Rightarrow> nat \<Rightarrow> 'ps schemaStore
     \<Rightarrow> control \<times> nat \<times> 'ps schemaStore \<times> model_Job list" where
  "drainIteration P data deferred s =
     (case data of
        DDLEventData v \<Rightarrow>
          (case addDDL (unsortedCache s) v of
             Inl (LogFatal msg) \<Rightarrow> (Fatal msg, deferred, s, [])
           | Inr cache \<Rightarrow>
               (case writeDDLEvent P (dataStorage s) v of
                  (Some err, storage) \<Rightarrow>
                    (Fatal ''write ddl event failed'', deferred,
                     s\<lparr>unsortedCache := cache, dataStorage := storage\<rparr>, [])
                | (None, storage) \<Rightarrow>
                    (Continue, deferred,
                     s\<lparr>unsortedCache := cache, dataStorage := storage\<rparr>, [])))
      | TsData v \<Rightarrow>
          (case getSortedDDLEventBeforeTS (unsortedCache s) v of
             (resolvedEvents, cache) \<Rightarrow>
               (if resolvedEvents = [] then (Continue, deferred, s\<lparr>unsortedCache := cache\<rparr>, [])
                else
                  (let newFinishedDDLTS = FinishedTS (BinlogInfo (Job (last resolvedEvents)));
                       newSchemaVersion = Version (Job (last resolvedEvents))
                   in (case updateStoreMeta P (dataStorage s) v newFinishedDDLTS newSchemaVersion of
                         (Some err, storage) \<Rightarrow>
                           (Fatal ''update ts failed'', deferred,
                            s\<lparr>unsortedCache := cache, dataStorage := storage\<rparr>, [])
                       | (None, storage) \<Rightarrow>
                           (if mu s
                            then (BlocksForever, deferred,
                                  s\<lparr>unsortedCache := cache, dataStorage := storage\<rparr>, [])
                            else
                              (case applyResolvedEvents
                                      (s\<lparr>unsortedCache := cache, dataStorage := storage, mu := True\<rparr>)
                                      resolvedEvents []
                               of (c, s', applied) \<Rightarrow> (c, Suc deferred, s', applied)))))))
      | OtherData \<Rightarrow> (Fatal ''unknown event type'', deferred, s, []))"

text \<open>
  The deferred unlocks run when the function returns or panics. Unlocking a mutex that
  is not locked is a fatal runtime error.
\<close>

fun runDeferred :: "nat \<Rightarrow> control \<Rightarrow> 'ps schemaStore \<Rightarrow> control \<times> 'ps schemaStore" where
  "runDeferred 0 c s = (c, s)"
| "runDeferred (Suc n) c s =
     (if mu s then runDeferred n c (s\<lparr>mu := False\<rparr>)
      else (Fatal ''sync: unlock of unlocked mutex'', s))"

text \<open>
  The loop of \<^verbatim>\<open>batchCommitAndUpdateWatermark\<close> on the values it receives before the
  context is cancelled; at the end of the list \<^verbatim>\<open>ctx.Done()\<close> is ready and the function
  returns nil. The last result lists, per iteration, the jobs applied in it.
\<close>

fun drainLoop ::
  "'ps persistentStorage \<Rightarrow> chan_data list \<Rightarrow> nat \<Rightarrow> 'ps schemaStore
     \<Rightarrow> control \<times> 'ps schemaStore \<times> model_Job list list" where
  "drainLoop P [] deferred s =
     (case runDeferred deferred (Return None) s of (c, s') \<Rightarrow> (c, s', []))"
| "drainLoop P (data # rest) deferred s =
     (case drainIteration P data deferred s of
        (Continue, deferred', s', applied) \<Rightarrow>
          (case drainLoop P rest deferred' s' of
             (c, s'', batches) \<Rightarrow> (c, s'', applied # batches))
      | (Return err, deferred', s', applied) \<Rightarrow>
          (case runDeferred deferred' (Return err) s' of (c, s'') \<Rightarrow> (c, s'', [applied]))
      | (Panic msg, deferred', s', applied) \<Rightarrow>
          (case runDeferred deferred' (Panic msg) s' of (c, s'') \<Rightarrow> (c, s'', [applied]))
      | (Fatal msg, deferred', s', applied) \<Rightarrow> (Fatal msg, s', [applied])
      | (BlocksForever, deferred', s', applied) \<Rightarrow> (BlocksForever, s', [applied]))"

definition batchCommitAndUpdateWatermark ::
  "'ps persistentStorage \<Rightarrow> chan_data list \<Rightarrow> 'ps schemaStore
     \<Rightarrow> control \<times> 'ps schemaStore \<times> model_Job list list" where
  "batchCommitAndUpdateWatermark P received s = drainLoop P received 0 s"





subsection \<open>Registering and unregistering dispatchers\<close>

text \<open>
  The callback that \<^verbatim>\<open>RegisterDispatcher\<close> hands to the persistent storage. It takes
  the mutex for the lookup and releases it; it is called while \<^verbatim>\<open>RegisterDispatcher\<close>
  holds no mutex.
\<close>

definition getSchemaName :: "'ps schemaStore \<Rightarrow> DatabaseID \<Rightarrow> error + string" where
  "getSchemaName s schemaID =
     (case databaseMap s schemaID of
        None \<Rightarrow> Inl (ErrorsNew ''database not found'')
      | Some databaseInfo \<Rightarrow> Inr (Name databaseInfo))"

text \<open>
  The branch of \<^verbatim>\<open>RegisterDispatcher\<close> for a table without a store: the store is
  created and entered under the mutex, then built outside it. The store is shared by
  reference with the map, so what the build leaves in it is what the map holds.
\<close>

definition RegisterDispatcher_newStore ::
  "'ps persistentStorage \<Rightarrow> DispatcherID \<Rightarrow> TableID \<Rightarrow> Ts \<Rightarrow> 'ps schemaStore
     \<Rightarrow> control \<times> 'ps schemaStore" where
  "RegisterDispatcher_newStore P dispatcherID tid startTS s =
     (let store = registerDispatcher (newEmptyVersionedTableInfoStore tid) dispatcherID startTS;
          s1 = s\<lparr>tableInfoStoreMap := (tableInfoStoreMap s)(tid \<mapsto> store)\<rparr>;
          endTS = finishedDDLTS s1;
          s2 = s1\<lparr>mu := False\<rparr>
      in (case buildVersionedTableInfoStore P (dataStorage s2) store startTS endTS (getSchemaName s2) of
            (Some err, store') \<Rightarrow>
              (Return (Some err),
               s2\<lparr>tableInfoStoreMap := (tableInfoStoreMap s2)(tid \<mapsto> store')\<rparr>)
          | (None, store') \<Rightarrow>
              (Return None,
               s2\<lparr>tableInfoStoreMap :=
                    (tableInfoStoreMap s2)(tid \<mapsto> setTableInfoInitialized store')\<rparr>)))"

text \<open>
  The branch for a table that has a store. The call registers on it, releases the
  mutex and waits for the latch of the store; when the store starts after the start
  timestamp, a second store is built outside the mutex and, with the mutex taken again
  and released by a deferred unlock, the garbage collection timestamp is checked a
  second time. \<open>concurrent\<close> is what other goroutines do to the persistent storage
  while no mutex is held; nothing else runs between the steps of the call.
\<close>

definition RegisterDispatcher_oldStore ::
  "'ps persistentStorage \<Rightarrow> ('ps \<Rightarrow> 'ps) \<Rightarrow> DispatcherID \<Rightarrow> TableID \<Rightarrow> Ts
     \<Rightarrow> versionedTableInfoStore \<Rightarrow> 'ps schemaStore \<Rightarrow> control \<times> 'ps schemaStore" where
  "RegisterDispatcher_oldStore P concurrent dispatcherID tid startTS store0 s =
     (let store = registerDispatcher store0 dispatcherID startTS;
          s1 = s\<lparr>tableInfoStoreMap := (tableInfoStoreMap s)(tid \<mapsto> store), mu := False\<rparr>
      in if \<not> initialized store then (BlocksForever, s1)
         else if getFirstVersion store \<le> startTS then (Return None, s1)
         else
           (let endTS = getFirstVersion store
            in (case buildVersionedTableInfoStore P (dataStorage s1)
                       (newEmptyVersionedTableInfoStore tid) startTS endTS (getSchemaName s1) of
                  (Some err, built) \<Rightarrow> (Return (Some err), s1)
                | (None, built) \<Rightarrow>
                    (let newStore = setTableInfoInitialized built;
                         s2 = s1\<lparr>dataStorage := concurrent (dataStorage s1), mu := True\<rparr>
                     in if startTS < getGCTS P (dataStorage s2)
                        then (Return (Some (ErrorsNew ''start ts is old than gc ts'')),
                              s2\<lparr>mu := False\<rparr>)
                        else
                          (case tableInfoStoreMap s2 tid of
                             Some oldStore \<Rightarrow>
                               (if getFirstVersion oldStore \<le> getFirstVersion newStore
                                then (Return None, s2\<lparr>mu := False\<rparr>)
                                else (Return None,
                                      s2\<lparr>tableInfoStoreMap :=
                                           (tableInfoStoreMap s2)(tid \<mapsto>
                                              copyRegisteredDispatchers
                                                (checkAndCopyTailFrom newStore oldStore) oldStore),
                                         mu := False\<rparr>))
                           | None \<Rightarrow> (Panic ''should not happened'', s2\<lparr>mu := False\<rparr>))))))"

text \<open>
  \<^verbatim>\<open>RegisterDispatcher\<close>. \<^verbatim>\<open>s.mu.Lock()\<close> on a held mutex waits for its holder. The
  return for a start timestamp below the garbage collection timestamp comes before any
  unlock, and no unlock is deferred at that point: the mutex stays held.
\<close>

definition RegisterDispatcher ::
  "'ps persistentStorage \<Rightarrow> ('ps \<Rightarrow> 'ps) \<Rightarrow> DispatcherID \<Rightarrow> TableID \<Rightarrow> Ts
     \<Rightarrow> 'ps schemaStore \<Rightarrow> control \<times> 'ps schemaStore" where
  "RegisterDispatcher P concurrent dispatcherID tid startTS s0 =
     (if mu s0 then (BlocksForever, s0)
      else
        (let s1 = s0\<lparr>mu := True\<rparr>
         in if startTS < getGCTS P (dataStorage s1)
            then (Return (Some (ErrorsNew ''start ts is old than gc ts'')), s1)
            else
              (let s2 = s1\<lparr>dispatchersMap :=
                            (dispatchersMap s1)(dispatcherID \<mapsto> \<lparr>tableID = tid\<rparr>)\<rparr>
               in (case tableInfoStoreMap s2 tid of
                     None \<Rightarrow> RegisterDispatcher_newStore P dispatcherID tid startTS s2
                   | Some store \<Rightarrow>
                       RegisterDispatcher_oldStore P concurrent dispatcherID tid startTS store s2))))"

text \<open>
  \<^verbatim>\<open>UnregisterDispatcher\<close>. The unlock is deferred right after the lock, so every
  way out releases the mutex. A table without a store gives a nil store, and the method
  call on it is a nil pointer dereference.
\<close>

definition UnregisterDispatcher ::
  "DispatcherID \<Rightarrow> 'ps schemaStore \<Rightarrow> control \<times> 'ps schemaStore" where
  "UnregisterDispatcher dispatcherID s0 =
     (if mu s0 then (BlocksForever, s0)
      else
        (let s1 = s0\<lparr>mu := True\<rparr>
         in (case dispatchersMap s1 dispatcherID of
               None \<Rightarrow> (Return (Some (ErrorsNew ''dispatcher not found'')), s1\<lparr>mu := False\<rparr>)
             | Some info \<Rightarrow>
                 (let tid = tableID info;
                      s2 = s1\<lparr>dispatchersMap := (dispatchersMap s1)(dispatcherID := None)\<rparr>
                  in (case tableInfoStoreMap s2 tid of
                        None \<Rightarrow> (Panic ''nil pointer dereference'', s2\<lparr>mu := False\<rparr>)
                      | Some store \<Rightarrow>
                          (case unregisterDispatcher store dispatcherID of
                             (removed, store') \<Rightarrow>
                               (if removed
                                then (Return None,
                                      s2\<lparr>tableInfoStoreMap := (tableInfoStoreMap s2)(tid := None),
                                         mu := False\<rparr>)
                                else (Return None,
                                      s2\<lparr>tableInfoStoreMap := (tableInfoStoreMap s2)(tid \<mapsto> store'),
                                         mu := False\<rparr>))))))))"

text \<open>
  \<^verbatim>\<open>GetNextDDLEvent\<close> returns a nil event, the timestamp 0 and a nil error, without
  reading the store.
\<close>

definition GetNextDDLEvent ::
  "'ps schemaStore \<Rightarrow> DispatcherID \<Rightarrow> DDLEvent option \<times> Ts \<times> error option" where
  "GetNextDDLEvent s dispatcherID = (None, 0, None)"

text \<open>
  The kinds of error the interface surfaces, read from the messages of the errors the
  source creates.
\<close>

datatype error_kind = TooOld | NotFound | AlreadyExists | OtherKind

definition errorKind :: "error \<Rightarrow> error_kind" where
  "errorKind err =
     (if err = ErrorsNew ''start ts is old than gc ts'' then TooOld
      else if err = ErrorsNew ''dispatcher not found'' \<or> err = ErrorsNew ''database not found''
              \<or> err = ErrorsNew ''table not found'' then NotFound
      else if err = ErrorsNew ''database already exists'' then AlreadyExists
      else OtherKind)"

section \<open>The parallel dynamic stream\<close>

text \<open>
  A Go channel with a buffer: its capacity and the values waiting in it. A channel
  variable is a reference; the nil channel is \<open>None\<close>.
\<close>

record 'f chan =
  capacity :: nat
  buffer :: "'f list"

definition make_chan :: "nat \<Rightarrow> 'f chan" where
  "make_chan n = \<lparr>capacity = n, buffer = []\<rparr>"

text \<open>
  The communications that can complete on a channel variable. On the nil channel
  neither a send nor a receive ever completes; on a buffered channel a send completes
  while the buffer has room and a receive while it holds a value.
\<close>

fun chan_send :: "'f chan option \<Rightarrow> 'f \<Rightarrow> 'f chan option option" where
  "chan_send None v = None"
| "chan_send (Some ch) v =
     (if length (buffer ch) < capacity ch then Some (Some (ch\<lparr>buffer := buffer ch @ [v]\<rparr>))
      else None)"

fun chan_receive :: "'f chan option \<Rightarrow> ('f \<times> 'f chan option) option" where
  "chan_receive None = None"
| "chan_receive (Some ch) =
     (case buffer ch of
        [] \<Rightarrow> None
      | v # vs \<Rightarrow> Some (v, Some (ch\<lparr>buffer := vs\<rparr>)))"

text \<open>
  The channel variable after senders have tried to send the given values in turn; a send
  that cannot complete leaves the channel as it is.
\<close>

fun chan_after_sends :: "'f chan option \<Rightarrow> 'f list \<Rightarrow> 'f chan option" where
  "chan_after_sends c [] = c"
| "chan_after_sends c (v # vs) =
     (case chan_send c v of
        None \<Rightarrow> chan_after_sends c vs
      | Some c' \<Rightarrow> chan_after_sends c' vs)"

record StreamOption =
  EnableMemoryControl :: bool

text \<open>
  The single dynamic stream (\<^verbatim>\<open>dynamicStreamImpl\<close>) is not among the source files.
  Its state is a type parameter and its constructor and the methods the parallel stream calls are the
  fields of an interface record. \<^verbatim>\<open>In\<close> and \<^verbatim>\<open>Wake\<close> return a channel of the sub-stream,
  a reference, here a number. The two methods that can fail return their error and the
  sub-stream as they leave it. The types of the handler, of a feedback value and of the
  area settings are parameters as well.
\<close>

record ('ds, 'a, 'p, 'd, 'h, 'f, 'g) dynamicStreamImpl =
  newDynamicStreamImpl :: "'h \<Rightarrow> StreamOption \<Rightarrow> 'f chan option \<Rightarrow> 'ds"
  dsIn :: "'ds \<Rightarrow> nat"
  dsWake :: "'ds \<Rightarrow> nat"
  dsAddPath :: "'ds \<Rightarrow> 'p \<Rightarrow> 'd \<Rightarrow> 'g list \<Rightarrow> error option \<times> 'ds"
  dsRemovePath :: "'ds \<Rightarrow> 'p \<Rightarrow> error option \<times> 'ds"
  dsSetAreaSettings :: "'ds \<Rightarrow> 'a \<Rightarrow> 'g \<Rightarrow> 'ds"

text \<open>
  \<^verbatim>\<open>parallelDynamicStream\<close>. The path hasher is its \<^verbatim>\<open>HashPath\<close> method, which returns
  a Go \<^verbatim>\<open>int\<close>.
\<close>

record ('ds, 'p, 'f) parallelDynamicStream =
  pathHaser :: "'p \<Rightarrow> int"
  dynamicStreams :: "'ds list"
  feedbackChan :: "'f chan option"

definition newParallelDynamicStream ::
  "('ds, 'a, 'p, 'd, 'h, 'f, 'g) dynamicStreamImpl \<Rightarrow> int \<Rightarrow> ('p \<Rightarrow> int) \<Rightarrow> 'h \<Rightarrow> StreamOption
     \<Rightarrow> ('ds, 'p, 'f) parallelDynamicStream" where
  "newParallelDynamicStream I streamCount hasher handler option =
     (let fb = (if EnableMemoryControl option then Some (make_chan 1024) else None)
      in \<lparr>pathHaser = hasher,
          dynamicStreams = replicate (nat streamCount) (newDynamicStreamImpl I handler option fb),
          feedbackChan = fb\<rparr>)"

text \<open>
  \<^verbatim>\<open>hash\<close> takes the variadic paths as a list. Its second panic carries the message
  "invalid hash result" followed by the index and the number of sub-streams, which are
  left out here. Indexing the slice of sub-streams panics outside its range;
  \<^verbatim>\<open>hash\<close> checks the upper end only.
\<close>

datatype panic = PanicMsg string | IndexOutOfRange int

definition hash :: "('ds, 'p, 'f) parallelDynamicStream \<Rightarrow> 'p list \<Rightarrow> panic + int" where
  "hash s path =
     (case path of
        [] \<Rightarrow> Inl (PanicMsg ''no path'')
      | first # others \<Rightarrow>
          (let index = pathHaser s first
           in if index \<ge> int (length (dynamicStreams s))
              then Inl (PanicMsg ''invalid hash result'')
              else Inr index))"

definition streamAt :: "'ds list \<Rightarrow> int \<Rightarrow> panic + 'ds" where
  "streamAt streams index =
     (if 0 \<le> index \<and> index < int (length streams) then Inr (streams ! nat index)
      else Inl (IndexOutOfRange index))"

definition In ::
  "('ds, 'a, 'p, 'd, 'h, 'f, 'g) dynamicStreamImpl \<Rightarrow> ('ds, 'p, 'f) parallelDynamicStream
     \<Rightarrow> 'p list \<Rightarrow> panic + nat" where
  "In I s path =
     (case hash s path of
        Inl p \<Rightarrow> Inl p
      | Inr index \<Rightarrow>
          (case streamAt (dynamicStreams s) index of
             Inl p \<Rightarrow> Inl p
           | Inr ds \<Rightarrow> Inr (dsIn I ds)))"

definition Wake ::
  "('ds, 'a, 'p, 'd, 'h, 'f, 'g) dynamicStreamImpl \<Rightarrow> ('ds, 'p, 'f) parallelDynamicStream
     \<Rightarrow> 'p list \<Rightarrow> panic + nat" where
  "Wake I s path =
     (case hash s path of
        Inl p \<Rightarrow> Inl p
      | Inr index \<Rightarrow>
          (case streamAt (dynamicStreams s) index of
             Inl p \<Rightarrow> Inl p
           | Inr ds \<Rightarrow> Inr (dsWake I ds)))"

definition Feedback :: "('ds, 'p, 'f) parallelDynamicStream \<Rightarrow> 'f chan option" where
  "Feedback s = feedbackChan s"

definition AddPath ::
  "('ds, 'a, 'p, 'd, 'h, 'f, 'g) dynamicStreamImpl \<Rightarrow> ('ds, 'p, 'f) parallelDynamicStream
     \<Rightarrow> 'p \<Rightarrow> 'd \<Rightarrow> 'g list \<Rightarrow> panic + error option \<times> ('ds, 'p, 'f) parallelDynamicStream" where
  "AddPath I s path dest area =
     (case hash s [path] of
        Inl p \<Rightarrow> Inl p
      | Inr index \<Rightarrow>
          (case streamAt (dynamicStreams s) index of
             Inl p \<Rightarrow> Inl p
           | Inr ds \<Rightarrow>
               (case dsAddPath I ds path dest area of
                  (err, ds') \<Rightarrow>
                    Inr (err, s\<lparr>dynamicStreams := (dynamicStreams s)[nat index := ds']\<rparr>))))"

definition RemovePath ::
  "('ds, 'a, 'p, 'd, 'h, 'f, 'g) dynamicStreamImpl \<Rightarrow> ('ds, 'p, 'f) parallelDynamicStream
     \<Rightarrow> 'p \<Rightarrow> panic + error option \<times> ('ds, 'p, 'f) parallelDynamicStream" where
  "RemovePath I s path =
     (case hash s [path] of
        Inl p \<Rightarrow> Inl p
      | Inr index \<Rightarrow>
          (case streamAt (dynamicStreams s) index of
             Inl p \<Rightarrow> Inl p
           | Inr ds \<Rightarrow>
               (case dsRemovePath I ds path of
                  (err, ds') \<Rightarrow>
                    Inr (err, s\<lparr>dynamicStreams := (dynamicStreams s)[nat index := ds']\<rparr>))))"

definition SetAreaSettings ::
  "('ds, 'a, 'p, 'd, 'h, 'f, 'g) dynamicStreamImpl \<Rightarrow> ('ds, 'p, 'f) parallelDynamicStream
     \<Rightarrow> 'a \<Rightarrow> 'g \<Rightarrow> ('ds, 'p, 'f) parallelDynamicStream" where
  "SetAreaSettings I s area settings =
     s\<lparr>dynamicStreams := map (\<lambda>ds. dsSetAreaSettings I ds area settings) (dynamicStreams s)\<rparr>"

section \<open>Values for the scenarios\<close>

text \<open>
  A DDL event on table 1 of database 1 whose job is of an action type that
  \<^verbatim>\<open>handleResolvedDDLJob\<close> sends to the store of the table. Its commit timestamp is the
  finished timestamp of its job.
\<close>

definition tableDDL :: "Ts \<Rightarrow> 64 word \<Rightarrow> DDLEvent" where
  "tableDDL ts version =
     \<lparr>Job = \<lparr>Type = ActionOther 5, SchemaID = 1, TableID = 1, SchemaName = [],
             Version = version,
             BinlogInfo = \<lparr>FinishedTS = ts, BinlogTableInfo = 0\<rparr>,
             DecodeArgsErr = None\<rparr>,
      CommitTS = ts\<rparr>"


text \<open>
  A persistent storage whose writes succeed, whose state is its garbage collection
  timestamp and whose build leaves the store as it is.
\<close>

definition scenarioStorage :: "Ts persistentStorage" where
  "scenarioStorage =
     \<lparr>writeDDLEvent = (\<lambda>ps e. (None, ps)),
      updateStoreMeta = (\<lambda>ps resolvedTs finishedTs version. (None, ps)),
      getGCTS = (\<lambda>ps. ps),
      buildVersionedTableInfoStore = (\<lambda>ps store startTs endTs getName. (None, store))\<rparr>"

text \<open>
  A schema store on that storage with the given garbage collection timestamp: the
  mutex is free, both watermarks are 0, database 1 was created at 10 and is live, and
  dispatcher 7 is registered on table 1 with send timestamp 60; the store of table 1
  holds one version, of timestamp 50.
\<close>

definition scenarioStore :: "Ts \<Rightarrow> Ts schemaStore" where
  "scenarioStore gc =
     \<lparr>unsortedCache = newUnSortedDDLCache,
      dataStorage = gc,
      mu = False,
      finishedDDLTS = 0,
      schemaVersion = 0,
      databaseMap = [1 \<mapsto> \<lparr>Name = ''test'', Tables = [1], CreateVersion = 10,
                           DeleteVersion = MaxUint64\<rparr>],
      tableInfoStoreMap = [1 \<mapsto> \<lparr>storeTableID = 1, infos = [(50, 0)],
                                 dispatchers = [7 \<mapsto> 60], initialized = True\<rparr>],
      dispatchersMap = [7 \<mapsto> \<lparr>tableID = 1\<rparr>]\<rparr>"

text \<open>
  A job that creates database 2, which the scenario store does not hold, with finished
  timestamp 100.
\<close>

definition createSchemaJob :: model_Job where
  "createSchemaJob =
     \<lparr>Type = ActionCreateSchema, SchemaID = 2, TableID = 0, SchemaName = ''shop'',
      Version = 1, BinlogInfo = \<lparr>FinishedTS = 100, BinlogTableInfo = 0\<rparr>,
      DecodeArgsErr = None\<rparr>"

text \<open>
  A single dynamic stream for the scenarios: its state is the number of its input
  channel and the paths registered on it with their destinations; the wake channel
  has the next number. Area settings are numbers and the last one set is not kept.
\<close>

definition scenarioStream ::
  "(nat \<times> (nat \<times> nat) list, nat, nat, nat, unit, nat, nat) dynamicStreamImpl" where
  "scenarioStream =
     \<lparr>newDynamicStreamImpl = (\<lambda>handler option fb. (0, [])),
      dsIn = (\<lambda>ds. fst ds),
      dsWake = (\<lambda>ds. Suc (fst ds)),
      dsAddPath = (\<lambda>ds path dest area.
         if path \<in> fst ` set (snd ds) then (Some (ErrorsNew ''path exists''), ds)
         else (None, (fst ds, (path, dest) # snd ds))),
      dsRemovePath = (\<lambda>ds path.
         if path \<in> fst ` set (snd ds)
         then (None, (fst ds, filter (\<lambda>pd. fst pd \<noteq> path) (snd ds)))
         else (Some (ErrorsNew ''path missing''), ds)),
      dsSetAreaSettings = (\<lambda>ds area settings. ds)\<rparr>"

text \<open>
  A parallel stream of two such sub-streams, with input channels 10 and 20, under the
  given hasher and without a feedback channel.
\<close>

definition scenarioParallel ::
  "(nat \<Rightarrow> int) \<Rightarrow> (nat \<times> (nat \<times> nat) list, nat, nat) parallelDynamicStream" where
  "scenarioParallel hasher =
     \<lparr>pathHaser = hasher, dynamicStreams = [(10, []), (20, [])], feedbackChan = None\<rparr>"

section \<open>Properties of the unsorted DDL cache\<close>

lemma ddlEventLess_irrefl: "\<not> ddlEventLess x x"
  by (simp add: ddlEventLess_def)

lemma ddlEventLess_transp: "transp ddlEventLess"
  by (auto simp: transp_def ddlEventLess_def)

lemma ReplaceOrInsert_fresh:
  "\<forall>y \<in> set xs. lt x y \<or> lt y x \<Longrightarrow>
   fst (ReplaceOrInsert lt x xs) = None \<and> set (snd (ReplaceOrInsert lt x xs)) = insert x (set xs)"
  by (induction xs) (auto split: prod.splits)

lemma ReplaceOrInsert_keeps:
  "\<forall>y \<in> set xs. lt x y \<or> lt y x \<Longrightarrow>
   filter (\<lambda>y. y \<noteq> x) (snd (ReplaceOrInsert lt x xs)) = filter (\<lambda>y. y \<noteq> x) xs"
  by (induction xs) (auto split: prod.splits)

lemma ReplaceOrInsert_duplicate:
  "sorted_wrt lt xs \<Longrightarrow> transp lt \<Longrightarrow> (\<And>a. \<not> lt a a) \<Longrightarrow>
   \<exists>y \<in> set xs. \<not> lt x y \<and> \<not> lt y x \<Longrightarrow>
   fst (ReplaceOrInsert lt x xs) \<noteq> None"
proof (induction xs)
  case Nil
  then show ?case by simp
next
  case (Cons z zs)
  show ?case
  proof (cases "lt x z")
    case True
    from Cons.prems(4) obtain y where y: "y \<in> set (z # zs)" "\<not> lt x y" "\<not> lt y x" by blast
    with True have "y \<in> set zs" by auto
    with Cons.prems(1) have "lt z y" by simp
    with True Cons.prems(2) have "lt x y" by (meson transpD)
    with y show ?thesis by simp
  next
    case False
    show ?thesis
    proof (cases "lt z x")
      case True
      with False Cons.prems(4) have "\<exists>y \<in> set zs. \<not> lt x y \<and> \<not> lt y x" by auto
      with Cons have "fst (ReplaceOrInsert lt x zs) \<noteq> None" by simp
      with True \<open>\<not> lt x z\<close> show ?thesis by (cases "ReplaceOrInsert lt x zs") auto
    next
      case False
      with \<open>\<not> lt x z\<close> show ?thesis by simp
    qed
  qed
qed

lemma ReplaceOrInsert_sorted:
  "sorted_wrt lt xs \<Longrightarrow> transp lt \<Longrightarrow> \<forall>y \<in> set xs. lt x y \<or> lt y x \<Longrightarrow>
   sorted_wrt lt (snd (ReplaceOrInsert lt x xs))"
proof (induction xs)
  case Nil
  then show ?case by simp
next
  case (Cons z zs)
  show ?case
  proof (cases "lt x z")
    case True
    have "\<forall>y \<in> set zs. lt x y"
    proof
      fix y assume "y \<in> set zs"
      with Cons.prems(1) have "lt z y" by simp
      with True Cons.prems(2) show "lt x y" by (meson transpD)
    qed
    with True Cons.prems(1) show ?thesis by simp
  next
    case False
    with Cons.prems(3) have zx: "lt z x" by auto
    from Cons have "sorted_wrt lt (snd (ReplaceOrInsert lt x zs))" by simp
    moreover have "set (snd (ReplaceOrInsert lt x zs)) = insert x (set zs)"
      using ReplaceOrInsert_fresh [of zs lt x] Cons.prems by simp
    ultimately show ?thesis using False zx Cons.prems(1)
      by (auto split: prod.splits)
  qed
qed

lemma Ascend_collect:
  "Ascend xs (\<lambda>event events. if P event then (True, events @ [event]) else (False, events)) acc
     = acc @ takeWhile P xs"
  by (induction xs arbitrary: acc) auto

lemma foldl_Delete_prefix:
  "(\<And>x. \<not> lt x x) \<Longrightarrow> foldl (\<lambda>tree event. Delete lt event tree) (ys @ zs) ys = zs"
  by (induction ys) auto

lemma getSortedDDLEventBeforeTS_split:
  "getSortedDDLEventBeforeTS c ts =
     (takeWhile (\<lambda>e. CommitTS e \<le> ts) (ddlEvents c),
      c\<lparr>ddlEvents := dropWhile (\<lambda>e. CommitTS e \<le> ts) (ddlEvents c)\<rparr>)"
proof -
  let ?P = "\<lambda>e. CommitTS e \<le> ts"
  have "foldl (\<lambda>tree event. Delete ddlEventLess event tree)
          (takeWhile ?P (ddlEvents c) @ dropWhile ?P (ddlEvents c)) (takeWhile ?P (ddlEvents c))
        = dropWhile ?P (ddlEvents c)"
    by (rule foldl_Delete_prefix [OF ddlEventLess_irrefl])
  then show ?thesis
    by (simp add: getSortedDDLEventBeforeTS_def Ascend_collect Let_def)
qed

lemma ordered_takeWhile_filter:
  "sorted_wrt ddlEventLess xs \<Longrightarrow>
   takeWhile (\<lambda>e. CommitTS e \<le> ts) xs = filter (\<lambda>e. CommitTS e \<le> ts) xs"
proof (induction xs)
  case Nil
  then show ?case by simp
next
  case (Cons x xs)
  show ?case
  proof (cases "CommitTS x \<le> ts")
    case True
    with Cons show ?thesis by simp
  next
    case False
    have "\<forall>y \<in> set xs. \<not> CommitTS y \<le> ts"
    proof
      fix y assume "y \<in> set xs"
      with Cons.prems have "CommitTS x < CommitTS y" by (simp add: ddlEventLess_def)
      with False show "\<not> CommitTS y \<le> ts" by auto
    qed
    then have "filter (\<lambda>e. CommitTS e \<le> ts) xs = []" by (simp add: filter_empty_conv)
    with False show ?thesis by simp
  qed
qed

lemma ordered_dropWhile_filter:
  "sorted_wrt ddlEventLess xs \<Longrightarrow>
   dropWhile (\<lambda>e. CommitTS e \<le> ts) xs = filter (\<lambda>e. ts < CommitTS e) xs"
proof (induction xs)
  case Nil
  then show ?case by simp
next
  case (Cons x xs)
  show ?case
  proof (cases "CommitTS x \<le> ts")
    case True
    with Cons show ?thesis by (simp add: not_less)
  next
    case False
    have "\<forall>y \<in> set xs. ts < CommitTS y"
    proof
      fix y assume "y \<in> set xs"
      with Cons.prems have "CommitTS x < CommitTS y" by (simp add: ddlEventLess_def)
      with False show "ts < CommitTS y" by auto
    qed
    then have "filter (\<lambda>e. ts < CommitTS e) xs = xs" by (simp add: filter_id_conv)
    with False show ?thesis by (simp add: not_le)
  qed
qed

text \<open>The order invariant holds for the new cache and is kept by both methods.\<close>

lemma newUnSortedDDLCache_ordered: "cacheOrdered newUnSortedDDLCache"
  by (simp add: cacheOrdered_def newUnSortedDDLCache_def)

lemma addDDL_ordered:
  assumes "cacheOrdered c" and "addDDL c e = Inr c'"
  shows "cacheOrdered c'"
proof -
  from assms(2) have none: "fst (ReplaceOrInsert ddlEventLess e (ddlEvents c)) = None"
    and c': "ddlEvents c' = snd (ReplaceOrInsert ddlEventLess e (ddlEvents c))"
    by (auto simp: addDDL_def split: prod.splits option.splits)
  have "\<forall>y \<in> set (ddlEvents c). ddlEventLess e y \<or> ddlEventLess y e"
  proof (rule ccontr)
    assume "\<not> ?thesis"
    then have "\<exists>y \<in> set (ddlEvents c). \<not> ddlEventLess e y \<and> \<not> ddlEventLess y e" by blast
    with assms(1) have "fst (ReplaceOrInsert ddlEventLess e (ddlEvents c)) \<noteq> None"
      unfolding cacheOrdered_def
      by (intro ReplaceOrInsert_duplicate ddlEventLess_transp ddlEventLess_irrefl)
    with none show False by simp
  qed
  with assms(1) show ?thesis
    unfolding cacheOrdered_def c'
    by (intro ReplaceOrInsert_sorted ddlEventLess_transp)
qed

lemma getSortedDDLEventBeforeTS_ordered:
  assumes "cacheOrdered c"
  shows "cacheOrdered (snd (getSortedDDLEventBeforeTS c ts))"
  using assms
  by (simp add: getSortedDDLEventBeforeTS_split cacheOrdered_def ordered_dropWhile_filter
      sorted_wrt_filter)

text \<open>
  C5. For a cache whose tree is in order and every timestamp \<open>ts\<close>, the fetch returns
  exactly the buffered events with a commit timestamp at most \<open>ts\<close>, in ascending order
  of commit timestamp, and the cache it leaves holds exactly the events with a commit
  timestamp above \<open>ts\<close>, still in order.
\<close>

theorem getSortedDDLEventBeforeTS_fetches:
  assumes "cacheOrdered c" and "getSortedDDLEventBeforeTS c ts = (events, c')"
  shows "events = filter (\<lambda>e. CommitTS e \<le> ts) (ddlEvents c)
       \<and> set events = {e \<in> set (ddlEvents c). CommitTS e \<le> ts}
       \<and> sorted_wrt ddlEventLess events
       \<and> ddlEvents c' = filter (\<lambda>e. ts < CommitTS e) (ddlEvents c)
       \<and> set (ddlEvents c') = {e \<in> set (ddlEvents c). ts < CommitTS e}
       \<and> cacheOrdered c'"
proof -
  from assms(1) have ord: "sorted_wrt ddlEventLess (ddlEvents c)"
    by (simp add: cacheOrdered_def)
  from assms(2) have ev: "events = filter (\<lambda>e. CommitTS e \<le> ts) (ddlEvents c)"
    and rest: "ddlEvents c' = filter (\<lambda>e. ts < CommitTS e) (ddlEvents c)"
    by (auto simp: getSortedDDLEventBeforeTS_split ordered_takeWhile_filter [OF ord]
        ordered_dropWhile_filter [OF ord])
  from ord have "sorted_wrt ddlEventLess events" and "cacheOrdered c'"
    by (simp_all add: ev rest cacheOrdered_def sorted_wrt_filter)
  with ev rest show ?thesis by auto
qed

theorem getSortedDDLEventBeforeTS_fetches_witness:
  "cacheOrdered \<lparr>ddlEvents = [tableDDL 90 1, tableDDL 100 2, tableDDL 110 3]\<rparr>
   \<and> getSortedDDLEventBeforeTS \<lparr>ddlEvents = [tableDDL 90 1, tableDDL 100 2, tableDDL 110 3]\<rparr> 100
       = ([tableDDL 90 1, tableDDL 100 2], \<lparr>ddlEvents = [tableDDL 110 3]\<rparr>)
   \<and> set [tableDDL 90 1, tableDDL 100 2]
       = {e \<in> set (ddlEvents \<lparr>ddlEvents = [tableDDL 90 1, tableDDL 100 2, tableDDL 110 3]\<rparr>).
            CommitTS e \<le> 100}
   \<and> set (ddlEvents \<lparr>ddlEvents = [tableDDL 110 3]\<rparr>)
       = {e \<in> set (ddlEvents \<lparr>ddlEvents = [tableDDL 90 1, tableDDL 100 2, tableDDL 110 3]\<rparr>).
            100 < CommitTS e}"
proof -
  let ?c = "\<lparr>ddlEvents = [tableDDL 90 1, tableDDL 100 2, tableDDL 110 3]\<rparr>"
  have ord: "cacheOrdered ?c"
    by (simp add: cacheOrdered_def ddlEventLess_def tableDDL_def)
  have fetch: "getSortedDDLEventBeforeTS ?c 100
                 = ([tableDDL 90 1, tableDDL 100 2], \<lparr>ddlEvents = [tableDDL 110 3]\<rparr>)"
    by (simp add: getSortedDDLEventBeforeTS_def ddlEventLess_def tableDDL_def)
  from getSortedDDLEventBeforeTS_fetches [OF ord fetch] ord fetch
  show ?thesis by blast
qed

text \<open>
  C6. For a cache whose tree is in order: adding an event whose commit timestamp is
  that of a buffered event ends in \<^verbatim>\<open>log.Fatal\<close>; adding an event with a commit timestamp
  that no buffered event has returns a cache that holds the new event and every event
  buffered before, in their order.
\<close>

theorem addDDL_conflict_or_insert:
  assumes "cacheOrdered c"
  shows "((\<exists>old \<in> set (ddlEvents c). CommitTS old = CommitTS e)
            \<longrightarrow> addDDL c e = Inl (LogFatal ''commitTS conflict''))
       \<and> ((\<forall>old \<in> set (ddlEvents c). CommitTS old \<noteq> CommitTS e)
            \<longrightarrow> (\<exists>c'. addDDL c e = Inr c'
                      \<and> set (ddlEvents c') = insert e (set (ddlEvents c))
                      \<and> filter (\<lambda>x. x \<noteq> e) (ddlEvents c') = ddlEvents c
                      \<and> cacheOrdered c'))"
proof (intro conjI impI)
  assume "\<exists>old \<in> set (ddlEvents c). CommitTS old = CommitTS e"
  then obtain old where "old \<in> set (ddlEvents c)" and "CommitTS old = CommitTS e" by blast
  then have "\<exists>y \<in> set (ddlEvents c). \<not> ddlEventLess e y \<and> \<not> ddlEventLess y e"
    by (intro bexI [of _ old]) (simp_all add: ddlEventLess_def)
  with assms have "fst (ReplaceOrInsert ddlEventLess e (ddlEvents c)) \<noteq> None"
    unfolding cacheOrdered_def
    by (intro ReplaceOrInsert_duplicate ddlEventLess_transp ddlEventLess_irrefl)
  then show "addDDL c e = Inl (LogFatal ''commitTS conflict'')"
    by (auto simp: addDDL_def split: prod.splits option.splits)
next
  assume fresh: "\<forall>old \<in> set (ddlEvents c). CommitTS old \<noteq> CommitTS e"
  then have cmp: "\<forall>y \<in> set (ddlEvents c). ddlEventLess e y \<or> ddlEventLess y e"
    by (auto simp: ddlEventLess_def)
  let ?r = "ReplaceOrInsert ddlEventLess e (ddlEvents c)"
  let ?c' = "c\<lparr>ddlEvents := snd ?r\<rparr>"
  from ReplaceOrInsert_fresh [OF cmp]
  have none: "fst ?r = None" and elems: "set (snd ?r) = insert e (set (ddlEvents c))"
    by simp_all
  from none have add: "addDDL c e = Inr ?c'"
    by (cases ?r) (simp add: addDDL_def)
  from fresh have "e \<notin> set (ddlEvents c)" by auto
  then have "filter (\<lambda>x. x \<noteq> e) (ddlEvents c) = ddlEvents c"
    by (auto simp: filter_id_conv)
  with ReplaceOrInsert_keeps [OF cmp]
  have keeps: "filter (\<lambda>x. x \<noteq> e) (ddlEvents ?c') = ddlEvents c" by simp
  from addDDL_ordered [OF assms add] have "cacheOrdered ?c'" .
  with add elems keeps
  show "\<exists>c'. addDDL c e = Inr c'
            \<and> set (ddlEvents c') = insert e (set (ddlEvents c))
            \<and> filter (\<lambda>x. x \<noteq> e) (ddlEvents c') = ddlEvents c
            \<and> cacheOrdered c'"
    by (intro exI [of _ ?c']) simp
qed

theorem addDDL_conflict_or_insert_witness:
  "cacheOrdered \<lparr>ddlEvents = [tableDDL 90 1, tableDDL 110 3]\<rparr>
   \<and> addDDL \<lparr>ddlEvents = [tableDDL 90 1, tableDDL 110 3]\<rparr> (tableDDL 110 7)
       = Inl (LogFatal ''commitTS conflict'')
   \<and> addDDL \<lparr>ddlEvents = [tableDDL 90 1, tableDDL 110 3]\<rparr> (tableDDL 100 2)
       = Inr \<lparr>ddlEvents = [tableDDL 90 1, tableDDL 100 2, tableDDL 110 3]\<rparr>"
proof -
  let ?c = "\<lparr>ddlEvents = [tableDDL 90 1, tableDDL 110 3]\<rparr>"
  have ord: "cacheOrdered ?c"
    by (simp add: cacheOrdered_def ddlEventLess_def tableDDL_def)
  have dup: "\<exists>old \<in> set (ddlEvents ?c). CommitTS old = CommitTS (tableDDL 110 7)"
    by (simp add: tableDDL_def)
  have ins: "addDDL ?c (tableDDL 100 2)
               = Inr \<lparr>ddlEvents = [tableDDL 90 1, tableDDL 100 2, tableDDL 110 3]\<rparr>"
    by (simp add: addDDL_def ddlEventLess_def tableDDL_def)
  from addDDL_conflict_or_insert [OF ord, of "tableDDL 110 7"] dup
  have "addDDL ?c (tableDDL 110 7) = Inl (LogFatal ''commitTS conflict'')" by blast
  with ord ins show ?thesis by simp
qed

section \<open>Properties of the drain loop\<close>

lemma applyResolvedEvents_watermarks:
  "applyResolvedEvents s evs applied = (c, s', applied') \<Longrightarrow>
   finishedDDLTS s \<le> finishedDDLTS s' \<and> schemaVersion s \<le>s schemaVersion s'"
proof (induction evs arbitrary: s applied)
  case Nil
  then show ?case by simp
next
  case (Cons event rest)
  show ?case
  proof (cases "Version (Job event) \<le>s schemaVersion s
                 \<or> FinishedTS (BinlogInfo (Job event)) \<le> finishedDDLTS s")
    case True
    with Cons show ?thesis by simp
  next
    case False
    show ?thesis
    proof (cases "handleResolvedDDLJob (Job event) (databaseMap s) (tableInfoStoreMap s)")
      case (Done dm tm)
      let ?s1 = "s\<lparr>databaseMap := dm, tableInfoStoreMap := tm,
                   schemaVersion := Version (Job event),
                   finishedDDLTS := FinishedTS (BinlogInfo (Job event))\<rparr>"
      from Cons.prems False Done
      have "applyResolvedEvents ?s1 rest (applied @ [Job event]) = (c, s', applied')" by simp
      from Cons.IH [OF this]
      have "FinishedTS (BinlogInfo (Job event)) \<le> finishedDDLTS s'"
        and "Version (Job event) \<le>s schemaVersion s'" by simp_all
      with False show ?thesis by (auto simp: word_sle_eq)
    next
      case (Failed err)
      with Cons.prems False show ?thesis by auto
    next
      case (Panicked msg)
      with Cons.prems False show ?thesis by auto
    qed
  qed
qed


lemma applyResolvedEvents_last:
  "applyResolvedEvents s evs applied = (c, s', applied') \<Longrightarrow>
   (\<exists>new. applied' = applied @ new
      \<and> (new = [] \<longrightarrow> finishedDDLTS s' = finishedDDLTS s \<and> schemaVersion s' = schemaVersion s)
      \<and> (new \<noteq> [] \<longrightarrow> finishedDDLTS s' = FinishedTS (BinlogInfo (last new))
                        \<and> schemaVersion s' = Version (last new))
      \<and> set new \<subseteq> Job ` set evs)"
proof (induction evs arbitrary: s applied)
  case Nil
  then show ?case by simp
next
  case (Cons event rest)
  show ?case
  proof (cases "Version (Job event) \<le>s schemaVersion s
                 \<or> FinishedTS (BinlogInfo (Job event)) \<le> finishedDDLTS s")
    case True
    with Cons.prems have "applyResolvedEvents s rest applied = (c, s', applied')" by simp
    from Cons.IH [OF this] show ?thesis by auto
  next
    case False
    show ?thesis
    proof (cases "handleResolvedDDLJob (Job event) (databaseMap s) (tableInfoStoreMap s)")
      case (Done dm tm)
      let ?s1 = "s\<lparr>databaseMap := dm, tableInfoStoreMap := tm,
                   schemaVersion := Version (Job event),
                   finishedDDLTS := FinishedTS (BinlogInfo (Job event))\<rparr>"
      from Cons.prems(1) False Done
      have run: "applyResolvedEvents ?s1 rest (applied @ [Job event]) = (c, s', applied')" by simp
      from Cons.IH [OF run] obtain new where new: "applied' = (applied @ [Job event]) @ new"
        "new = [] \<longrightarrow> finishedDDLTS s' = finishedDDLTS ?s1 \<and> schemaVersion s' = schemaVersion ?s1"
        "new \<noteq> [] \<longrightarrow> finishedDDLTS s' = FinishedTS (BinlogInfo (last new))
                        \<and> schemaVersion s' = Version (last new)"
        "set new \<subseteq> Job ` set rest" by blast
      show ?thesis
      proof (intro exI [of _ "Job event # new"] conjI)
        show "applied' = applied @ Job event # new" using new(1) by simp
        show "Job event # new = [] \<longrightarrow>
                finishedDDLTS s' = finishedDDLTS s \<and> schemaVersion s' = schemaVersion s" by simp
        show "Job event # new \<noteq> [] \<longrightarrow>
                finishedDDLTS s' = FinishedTS (BinlogInfo (last (Job event # new)))
                \<and> schemaVersion s' = Version (last (Job event # new))"
          using new(2,3) by (cases "new = []") simp_all
        show "set (Job event # new) \<subseteq> Job ` set (event # rest)" using new(4) by auto
      qed
    next
      case (Failed err)
      with Cons.prems False show ?thesis by auto
    next
      case (Panicked msg)
      with Cons.prems False show ?thesis by auto
    qed
  qed
qed

lemma runDeferred_watermarks:
  "runDeferred n c s = (c', s') \<Longrightarrow>
   finishedDDLTS s' = finishedDDLTS s \<and> schemaVersion s' = schemaVersion s"
  by (induction n arbitrary: s) (auto split: if_splits)

lemma drainIteration_watermarks:
  assumes "drainIteration P data deferred s = (c, deferred', s', applied)"
  shows "finishedDDLTS s \<le> finishedDDLTS s' \<and> schemaVersion s \<le>s schemaVersion s'"
proof (cases data)
  case (DDLEventData v)
  with assms show ?thesis
    by (auto simp: drainIteration_def split: sum.splits fatal.splits prod.splits option.splits)
next
  case (TsData v)
  obtain evs cache where f: "getSortedDDLEventBeforeTS (unsortedCache s) v = (evs, cache)"
    by (cases "getSortedDDLEventBeforeTS (unsortedCache s) v")
  show ?thesis
  proof (cases "evs = []")
    case True
    with assms TsData f show ?thesis by (auto simp: drainIteration_def)
  next
    case False
    obtain err storage where u: "updateStoreMeta P (dataStorage s) v
        (FinishedTS (BinlogInfo (Job (last evs)))) (Version (Job (last evs))) = (err, storage)"
      by (cases "updateStoreMeta P (dataStorage s) v
        (FinishedTS (BinlogInfo (Job (last evs)))) (Version (Job (last evs)))")
    show ?thesis
    proof (cases "err = None \<and> \<not> mu s")
      case True
      let ?s1 = "s\<lparr>unsortedCache := cache, dataStorage := storage, mu := True\<rparr>"
      from assms TsData f False u True
      have "applyResolvedEvents ?s1 evs [] = (c, s', applied)"
        by (auto simp: drainIteration_def Let_def split: prod.splits)
      from applyResolvedEvents_watermarks [OF this] show ?thesis by simp
    next
      case False
      with assms TsData f \<open>evs \<noteq> []\<close> u show ?thesis
        by (auto simp: drainIteration_def Let_def split: option.splits if_splits)
    qed
  qed
next
  case OtherData
  with assms show ?thesis by (auto simp: drainIteration_def)
qed

lemma drainLoop_watermarks:
  "drainLoop P received deferred s = (c, s', batches) \<Longrightarrow>
   finishedDDLTS s \<le> finishedDDLTS s' \<and> schemaVersion s \<le>s schemaVersion s'"
proof (induction received arbitrary: deferred s batches)
  case Nil
  then show ?case by (auto split: prod.splits dest: runDeferred_watermarks)
next
  case (Cons data rest)
  obtain c1 d1 s1 a1 where it: "drainIteration P data deferred s = (c1, d1, s1, a1)"
    by (cases "drainIteration P data deferred s") auto
  note w1 = drainIteration_watermarks [OF it]
  show ?case
  proof (cases c1)
    case Continue
    with Cons.prems it obtain b where "drainLoop P rest d1 s1 = (c, s', b)"
      by (auto split: prod.splits)
    from Cons.IH [OF this] w1 show ?thesis by (auto simp: word_sle_eq)
  next
    case (Return err)
    with Cons.prems it have "\<exists>c'. runDeferred d1 (Return err) s1 = (c', s')"
      by (auto split: prod.splits)
    with w1 show ?thesis by (auto dest: runDeferred_watermarks)
  next
    case (Fatal msg)
    with Cons.prems it w1 show ?thesis by auto
  next
    case (Panic msg)
    with Cons.prems it have "\<exists>c'. runDeferred d1 (Panic msg) s1 = (c', s')"
      by (auto split: prod.splits)
    with w1 show ?thesis by (auto dest: runDeferred_watermarks)
  next
    case BlocksForever
    with Cons.prems it w1 show ?thesis by auto
  qed
qed










subsection \<open>Evaluating the scenarios\<close>

lemma tableDDL_fields:
  "CommitTS (tableDDL ts v) = ts"
  "FinishedTS (BinlogInfo (Job (tableDDL ts v))) = ts"
  "Version (Job (tableDDL ts v)) = v"
  "TableID (Job (tableDDL ts v)) = 1"
  "SchemaID (Job (tableDDL ts v)) = 1"
  "Type (Job (tableDDL ts v)) = ActionOther 5"
  by (simp_all add: tableDDL_def)

lemma handleResolvedDDLJob_tableDDL:
  assumes "dm 1 = Some db" and "CreateVersion db \<le> ts" and "ts \<le> DeleteVersion db"
    and "tm 1 = Some store"
  shows "handleResolvedDDLJob (Job (tableDDL ts v)) dm tm
           = Done dm (tm(1 \<mapsto> applyDDL store ((Job (tableDDL ts v))\<lparr>SchemaName := Name db\<rparr>)))"
  using assms
  by (simp add: handleResolvedDDLJob_def fillSchemaName_def tableDDL_fields not_less [symmetric])

lemma scenarioStore_fields:
  "unsortedCache (scenarioStore gc) = \<lparr>ddlEvents = []\<rparr>"
  "dataStorage (scenarioStore gc) = gc"
  "mu (scenarioStore gc) = False"
  "finishedDDLTS (scenarioStore gc) = 0"
  "schemaVersion (scenarioStore gc) = 0"
  "databaseMap (scenarioStore gc) 1
     = Some \<lparr>Name = ''test'', Tables = [1], CreateVersion = 10, DeleteVersion = MaxUint64\<rparr>"
  "tableInfoStoreMap (scenarioStore gc) 1
     = Some \<lparr>storeTableID = 1, infos = [(50, 0)], dispatchers = [7 \<mapsto> 60], initialized = True\<rparr>"
  by (simp_all add: scenarioStore_def newUnSortedDDLCache_def)

lemma scenarioStorage_fields:
  "writeDDLEvent scenarioStorage ps e = (None, ps)"
  "updateStoreMeta scenarioStorage ps r f v = (None, ps)"
  "getGCTS scenarioStorage ps = ps"
  "buildVersionedTableInfoStore scenarioStorage ps store a b g = (None, store)"
  by (simp_all add: scenarioStorage_def)

lemma applyResolvedEvents_tableDDL:
  assumes "databaseMap s 1 \<noteq> None"
    and "CreateVersion (the (databaseMap s 1)) \<le> ts"
    and "ts \<le> DeleteVersion (the (databaseMap s 1))"
    and "tableInfoStoreMap s 1 \<noteq> None"
    and "schemaVersion s <s v" and "finishedDDLTS s < ts"
  shows "applyResolvedEvents s (tableDDL ts v # rest) applied
           = applyResolvedEvents
               (s\<lparr>tableInfoStoreMap := (tableInfoStoreMap s)(1 \<mapsto>
                     applyDDL (the (tableInfoStoreMap s 1))
                       ((Job (tableDDL ts v))\<lparr>SchemaName := Name (the (databaseMap s 1))\<rparr>)),
                  schemaVersion := v, finishedDDLTS := ts\<rparr>)
               rest (applied @ [Job (tableDDL ts v)])"
proof -
  from assms(1,4) obtain db store where
    db: "databaseMap s 1 = Some db" and store: "tableInfoStoreMap s 1 = Some store" by auto
  from assms(2,3) db have cv: "CreateVersion db \<le> ts" and dv: "ts \<le> DeleteVersion db"
    by simp_all
  from db cv dv store
  have "handleResolvedDDLJob (Job (tableDDL ts v)) (databaseMap s) (tableInfoStoreMap s)
          = Done (databaseMap s)
              ((tableInfoStoreMap s)(1 \<mapsto>
                 applyDDL store ((Job (tableDDL ts v))\<lparr>SchemaName := Name db\<rparr>)))"
    by (rule handleResolvedDDLJob_tableDDL [of "databaseMap s" db ts "tableInfoStoreMap s" store v])
  moreover from assms(5,6) have "\<not> v \<le>s schemaVersion s" and "\<not> ts \<le> finishedDDLTS s"
    by (simp_all add: word_sle_eq word_sless_alt not_le)
  ultimately show ?thesis using db store by (simp add: tableDDL_fields)
qed

lemma applyResolvedEvents_replay:
  assumes "Version (Job event) \<le>s schemaVersion s"
  shows "applyResolvedEvents s (event # rest) applied = applyResolvedEvents s rest applied"
  using assms by simp

text \<open>
  The run of the scenario of C1: the events of finished timestamps 100, 90 and 110
  arrive in that order, then the resolved timestamp 120, then the context is cancelled.
\<close>

lemma scenario_ordering_run:
  "fst (batchCommitAndUpdateWatermark scenarioStorage
          [DDLEventData (tableDDL 100 2), DDLEventData (tableDDL 90 1),
           DDLEventData (tableDDL 110 3), TsData 120] (scenarioStore 0))
     = Return None"
  "snd (snd (batchCommitAndUpdateWatermark scenarioStorage
          [DDLEventData (tableDDL 100 2), DDLEventData (tableDDL 90 1),
           DDLEventData (tableDDL 110 3), TsData 120] (scenarioStore 0)))
     = [[], [], [], [Job (tableDDL 90 1), Job (tableDDL 100 2), Job (tableDDL 110 3)]]"
  "finishedDDLTS (fst (snd (batchCommitAndUpdateWatermark scenarioStorage
          [DDLEventData (tableDDL 100 2), DDLEventData (tableDDL 90 1),
           DDLEventData (tableDDL 110 3), TsData 120] (scenarioStore 0))))
     = 110"
  by (simp_all add: batchCommitAndUpdateWatermark_def drainIteration_def addDDL_def
        getSortedDDLEventBeforeTS_def ddlEventLess_def tableDDL_fields
        scenarioStore_fields scenarioStorage_fields applyResolvedEvents_tableDDL
        applyResolvedEvents_replay MaxUint64_def word_sless_alt word_sle_eq
        del: applyResolvedEvents.simps(2))


text \<open>
  A run in which the second job resolved is a replay: when it is looked at, its version
  1 is the current schema version.
\<close>

lemma scenario_replay_run:
  "fst (drainLoop scenarioStorage
          [DDLEventData (tableDDL 90 1), DDLEventData (tableDDL 95 1),
           DDLEventData (tableDDL 110 3), TsData 120] 0 (scenarioStore 0))
     = Return None"
  "snd (snd (drainLoop scenarioStorage
          [DDLEventData (tableDDL 90 1), DDLEventData (tableDDL 95 1),
           DDLEventData (tableDDL 110 3), TsData 120] 0 (scenarioStore 0)))
     = [[], [], [], [Job (tableDDL 90 1), Job (tableDDL 110 3)]]"
  "finishedDDLTS (fst (snd (drainLoop scenarioStorage
          [DDLEventData (tableDDL 90 1), DDLEventData (tableDDL 95 1),
           DDLEventData (tableDDL 110 3), TsData 120] 0 (scenarioStore 0))))
     = 110"
  "schemaVersion (fst (snd (drainLoop scenarioStorage
          [DDLEventData (tableDDL 90 1), DDLEventData (tableDDL 95 1),
           DDLEventData (tableDDL 110 3), TsData 120] 0 (scenarioStore 0))))
     = 3"
  by (simp_all add: batchCommitAndUpdateWatermark_def drainIteration_def addDDL_def
        getSortedDDLEventBeforeTS_def ddlEventLess_def tableDDL_fields
        scenarioStore_fields scenarioStorage_fields applyResolvedEvents_tableDDL
        applyResolvedEvents_replay MaxUint64_def word_sless_alt word_sle_eq
        del: applyResolvedEvents.simps(2))






subsection \<open>Order of application and watermarks\<close>




text \<open>
  C2. The watermarks \<open>finishedDDLTS\<close> (unsigned) and \<open>schemaVersion\<close> (signed) never
  decrease: not over any run of the drain loop, however it ends, and not in any single
  iteration. In a resolved batch, an event whose job version is at most the current
  \<open>schemaVersion\<close> is skipped and the state is the same with and without it. A job that
  is not skipped and that \<^verbatim>\<open>handleResolvedDDLJob\<close> applies sets both watermarks to its
  version and finished timestamp before the next event is looked at; after the batch,
  the watermarks are those of the last job applied, and unchanged when none was.
\<close>

theorem watermarks_never_decrease:
  "(\<forall>c s' batches. drainLoop P received deferred s = (c, s', batches)
        \<longrightarrow> finishedDDLTS s \<le> finishedDDLTS s' \<and> schemaVersion s \<le>s schemaVersion s')
   \<and> (\<forall>c d' s' applied'. drainIteration P data deferred s = (c, d', s', applied')
        \<longrightarrow> finishedDDLTS s \<le> finishedDDLTS s' \<and> schemaVersion s \<le>s schemaVersion s')
   \<and> (Version (Job event) \<le>s schemaVersion s
        \<longrightarrow> applyResolvedEvents s (event # rest) applied = applyResolvedEvents s rest applied)
   \<and> (\<forall>dm tm. \<not> Version (Job event) \<le>s schemaVersion s
          \<and> \<not> FinishedTS (BinlogInfo (Job event)) \<le> finishedDDLTS s
          \<and> handleResolvedDDLJob (Job event) (databaseMap s) (tableInfoStoreMap s) = Done dm tm
        \<longrightarrow> applyResolvedEvents s (event # rest) applied
            = applyResolvedEvents
                (s\<lparr>databaseMap := dm, tableInfoStoreMap := tm,
                   schemaVersion := Version (Job event),
                   finishedDDLTS := FinishedTS (BinlogInfo (Job event))\<rparr>)
                rest (applied @ [Job event]))
   \<and> (\<forall>c s' applied'. applyResolvedEvents s evs applied = (c, s', applied')
        \<longrightarrow> (\<exists>new. applied' = applied @ new
              \<and> (new = [] \<longrightarrow> finishedDDLTS s' = finishedDDLTS s
                               \<and> schemaVersion s' = schemaVersion s)
              \<and> (new \<noteq> [] \<longrightarrow> finishedDDLTS s' = FinishedTS (BinlogInfo (last new))
                               \<and> schemaVersion s' = Version (last new))))"
proof (intro conjI allI impI)
  fix c s' batches
  assume "drainLoop P received deferred s = (c, s', batches)"
  from drainLoop_watermarks [OF this]
  show "finishedDDLTS s \<le> finishedDDLTS s'" and "schemaVersion s \<le>s schemaVersion s'"
    by simp_all
next
  fix c d' s' applied'
  assume "drainIteration P data deferred s = (c, d', s', applied')"
  from drainIteration_watermarks [OF this]
  show "finishedDDLTS s \<le> finishedDDLTS s'" and "schemaVersion s \<le>s schemaVersion s'"
    by simp_all
next
  assume "Version (Job event) \<le>s schemaVersion s"
  then show "applyResolvedEvents s (event # rest) applied = applyResolvedEvents s rest applied"
    by simp
next
  fix dm tm
  assume "\<not> Version (Job event) \<le>s schemaVersion s
          \<and> \<not> FinishedTS (BinlogInfo (Job event)) \<le> finishedDDLTS s
          \<and> handleResolvedDDLJob (Job event) (databaseMap s) (tableInfoStoreMap s) = Done dm tm"
  then show "applyResolvedEvents s (event # rest) applied
            = applyResolvedEvents
                (s\<lparr>databaseMap := dm, tableInfoStoreMap := tm,
                   schemaVersion := Version (Job event),
                   finishedDDLTS := FinishedTS (BinlogInfo (Job event))\<rparr>)
                rest (applied @ [Job event])"
    by simp
next
  fix c s' applied'
  assume "applyResolvedEvents s evs applied = (c, s', applied')"
  from applyResolvedEvents_last [OF this]
  show "\<exists>new. applied' = applied @ new
              \<and> (new = [] \<longrightarrow> finishedDDLTS s' = finishedDDLTS s
                               \<and> schemaVersion s' = schemaVersion s)
              \<and> (new \<noteq> [] \<longrightarrow> finishedDDLTS s' = FinishedTS (BinlogInfo (last new))
                               \<and> schemaVersion s' = Version (last new))"
    by blast
qed

text \<open>
  A run on the scenario store in which the second job resolved is a replay: its version
  1 is the current schema version when it is looked at. The jobs of finished timestamps
  90 and 110 are applied, and the watermarks end at 110 and 3.
\<close>

theorem watermarks_never_decrease_witness:
  "fst (drainLoop scenarioStorage
          [DDLEventData (tableDDL 90 1), DDLEventData (tableDDL 95 1),
           DDLEventData (tableDDL 110 3), TsData 120] 0 (scenarioStore 0))
     = Return None
   \<and> snd (snd (drainLoop scenarioStorage
          [DDLEventData (tableDDL 90 1), DDLEventData (tableDDL 95 1),
           DDLEventData (tableDDL 110 3), TsData 120] 0 (scenarioStore 0)))
     = [[], [], [], [Job (tableDDL 90 1), Job (tableDDL 110 3)]]
   \<and> finishedDDLTS (fst (snd (drainLoop scenarioStorage
          [DDLEventData (tableDDL 90 1), DDLEventData (tableDDL 95 1),
           DDLEventData (tableDDL 110 3), TsData 120] 0 (scenarioStore 0))))
     = 110
   \<and> schemaVersion (fst (snd (drainLoop scenarioStorage
          [DDLEventData (tableDDL 90 1), DDLEventData (tableDDL 95 1),
           DDLEventData (tableDDL 110 3), TsData 120] 0 (scenarioStore 0))))
     = 3
   \<and> finishedDDLTS (scenarioStore 0)
       \<le> finishedDDLTS (fst (snd (drainLoop scenarioStorage
          [DDLEventData (tableDDL 90 1), DDLEventData (tableDDL 95 1),
           DDLEventData (tableDDL 110 3), TsData 120] 0 (scenarioStore 0))))
   \<and> schemaVersion (scenarioStore 0)
       \<le>s schemaVersion (fst (snd (drainLoop scenarioStorage
          [DDLEventData (tableDDL 90 1), DDLEventData (tableDDL 95 1),
           DDLEventData (tableDDL 110 3), TsData 120] 0 (scenarioStore 0))))
   \<and> applyResolvedEvents ((scenarioStore 0)\<lparr>schemaVersion := 1\<rparr>) [tableDDL 95 1] []
       = applyResolvedEvents ((scenarioStore 0)\<lparr>schemaVersion := 1\<rparr>) [] []"
proof -
  let ?received = "[DDLEventData (tableDDL 90 1), DDLEventData (tableDDL 95 1),
                    DDLEventData (tableDDL 110 3), TsData 120]"
  let ?run = "drainLoop scenarioStorage ?received 0 (scenarioStore 0)"
  let ?s1 = "(scenarioStore 0)\<lparr>schemaVersion := 1\<rparr>"
  have run: "?run = (fst ?run, fst (snd ?run), snd (snd ?run))"
    by (simp only: prod.collapse)
  note up = watermarks_never_decrease [THEN conjunct1, rule_format, OF run]
  have replay: "Version (Job (tableDDL 95 1)) \<le>s schemaVersion ?s1"
    by (simp add: tableDDL_fields word_sle_eq)
  note skip = watermarks_never_decrease
    [THEN conjunct2, THEN conjunct2, THEN conjunct1, rule_format, OF replay, of "[]" "[]"]
  show ?thesis
    by (intro conjI scenario_replay_run skip up [THEN conjunct1] up [THEN conjunct2])
qed

text \<open>
  The order of a batch is the order of the commit timestamps in the cache, which need
  not be the order of the finished timestamps. When the job of finished timestamp 90
  and version 1 is resolved after the job of finished timestamp 100 and version 2, the
  guard skips it: the jobs applied are those of 100 and 110.
\<close>

lemma resolved_out_of_order_is_skipped:
  "snd (snd (applyResolvedEvents (scenarioStore 0)
               [tableDDL 100 2, tableDDL 90 1, tableDDL 110 3] []))
     = [Job (tableDDL 100 2), Job (tableDDL 110 3)]"
  by (simp add: tableDDL_fields scenarioStore_fields applyResolvedEvents_tableDDL
      applyResolvedEvents_replay MaxUint64_def word_sless_alt word_sle_eq
      del: applyResolvedEvents.simps(2))

text \<open>
  The unlock of a batch is deferred to the return of the function, so the loop holds
  the mutex from its first batch that is not empty. At the next such batch it waits for
  the mutex it holds: the job of finished timestamp 100, resolved by a second timestamp,
  is fetched from the cache and not applied.
\<close>

lemma second_batch_waits_for_own_mutex:
  "fst (batchCommitAndUpdateWatermark scenarioStorage
          [DDLEventData (tableDDL 90 1), TsData 95,
           DDLEventData (tableDDL 100 2), TsData 120] (scenarioStore 0))
     = BlocksForever"
  "snd (snd (batchCommitAndUpdateWatermark scenarioStorage
          [DDLEventData (tableDDL 90 1), TsData 95,
           DDLEventData (tableDDL 100 2), TsData 120] (scenarioStore 0)))
     = [[], [Job (tableDDL 90 1)], [], []]"
  "finishedDDLTS (fst (snd (batchCommitAndUpdateWatermark scenarioStorage
          [DDLEventData (tableDDL 90 1), TsData 95,
           DDLEventData (tableDDL 100 2), TsData 120] (scenarioStore 0))))
     = 90"
  by (simp_all add: batchCommitAndUpdateWatermark_def drainIteration_def addDDL_def
        getSortedDDLEventBeforeTS_def ddlEventLess_def tableDDL_fields
        scenarioStore_fields scenarioStorage_fields applyResolvedEvents_tableDDL
        applyResolvedEvents_replay MaxUint64_def word_sless_alt word_sle_eq
        del: applyResolvedEvents.simps(2))

section \<open>Properties of the schema store interface\<close>

subsection \<open>Creating a schema\<close>

text \<open>
  \<^verbatim>\<open>createSchema\<close> on its own inserts the database with the finished timestamp of the
  job as create version and \<^verbatim>\<open>math.MaxUint64\<close> as delete version when the id is not in
  the map, and fails when it is.
\<close>

lemma createSchema_inserts:
  "dm (SchemaID job) = None \<Longrightarrow>
   createSchema job dm
     = Inr (dm(SchemaID job \<mapsto>
              \<lparr>Name = SchemaName job, Tables = [],
               CreateVersion = FinishedTS (BinlogInfo job), DeleteVersion = MaxUint64\<rparr>))"
  by (simp add: createSchema_def)

lemma createSchema_exists:
  "dm (SchemaID job) = Some existing \<Longrightarrow>
   createSchema job dm = Inl (ErrorsNew ''database already exists'')"
  by (simp add: createSchema_def)

text \<open>
  \<^verbatim>\<open>handleResolvedDDLJob\<close> calls \<^verbatim>\<open>fillSchemaName\<close> before it looks at the type of the
  job, and \<^verbatim>\<open>fillSchemaName\<close> fails for a database id that is not in the map. A
  CreateSchema job therefore fails when its database is absent and, through
  \<^verbatim>\<open>createSchema\<close>, when it is present: it never succeeds.
\<close>

lemma handleResolvedDDLJob_CreateSchema_absent:
  "dm (SchemaID job) = None \<Longrightarrow>
   handleResolvedDDLJob job dm tm = Failed (ErrorsNew ''database not found'')"
  by (simp add: handleResolvedDDLJob_def fillSchemaName_def)

lemma handleResolvedDDLJob_CreateSchema_never_succeeds:
  "Type job = ActionCreateSchema \<Longrightarrow> handleResolvedDDLJob job dm tm \<noteq> Done dm' tm'"
  by (auto simp: handleResolvedDDLJob_def fillSchemaName_def createSchema_def Let_def
      split: option.splits if_splits sum.splits)

text \<open>
  C3. The job that creates database 2 on the scenario store, whose database map does
  not hold 2: \<^verbatim>\<open>handleResolvedDDLJob\<close> returns "database not found"; the iteration of
  the drain loop that resolves the job returns that error and leaves the database map
  as it was, without database 2.
\<close>

theorem CreateSchema_job_on_absent_database_fails:
  "(databaseMap (scenarioStore 0)) (SchemaID createSchemaJob) = None
   \<and> handleResolvedDDLJob createSchemaJob (databaseMap (scenarioStore 0))
        (tableInfoStoreMap (scenarioStore 0))
       = Failed (ErrorsNew ''database not found'')
   \<and> fst (drainIteration scenarioStorage (TsData 120) 0
        ((scenarioStore 0)\<lparr>unsortedCache :=
            \<lparr>ddlEvents = [\<lparr>Job = createSchemaJob, CommitTS = 100\<rparr>]\<rparr>\<rparr>))
       = Return (Some (ErrorsNew ''database not found''))
   \<and> databaseMap (fst (snd (snd (drainIteration scenarioStorage (TsData 120) 0
        ((scenarioStore 0)\<lparr>unsortedCache :=
            \<lparr>ddlEvents = [\<lparr>Job = createSchemaJob, CommitTS = 100\<rparr>]\<rparr>\<rparr>)))))
       = databaseMap (scenarioStore 0)"
  by (simp add: drainIteration_def getSortedDDLEventBeforeTS_def ddlEventLess_def
      scenarioStorage_def scenarioStore_def handleResolvedDDLJob_def fillSchemaName_def
      createSchemaJob_def word_sle_eq)

subsection \<open>Registering a dispatcher\<close>

text \<open>
  With the mutex free, a start timestamp below the garbage collection timestamp is
  rejected, and the mutex is held when the call has returned. With the mutex held, the
  call waits.
\<close>

lemma RegisterDispatcher_too_old:
  assumes "\<not> mu s" and "startTS < getGCTS P (dataStorage s)"
  shows "RegisterDispatcher P concurrent d tid startTS s
           = (Return (Some (ErrorsNew ''start ts is old than gc ts'')), s\<lparr>mu := True\<rparr>)"
  using assms by (simp add: RegisterDispatcher_def)

lemma RegisterDispatcher_blocked:
  "mu s \<Longrightarrow> RegisterDispatcher P concurrent d tid startTS s = (BlocksForever, s)"
  by (simp add: RegisterDispatcher_def)

text \<open>
  With the mutex free and a persistent storage whose build does not itself return the
  error of the check: a start timestamp that is at least the garbage collection
  timestamp at entry and at the second check does not get that error.
\<close>

lemma RegisterDispatcher_not_too_old:
  assumes "\<not> mu s"
    and "\<not> startTS < getGCTS P (dataStorage s)"
    and "\<not> startTS < getGCTS P (concurrent (dataStorage s))"
    and "\<And>ps store a b g. fst (buildVersionedTableInfoStore P ps store a b g)
           \<noteq> Some (ErrorsNew ''start ts is old than gc ts'')"
  shows "fst (RegisterDispatcher P concurrent d tid startTS s)
           \<noteq> Return (Some (ErrorsNew ''start ts is old than gc ts''))"
proof (cases "tableInfoStoreMap s tid")
  case None
  obtain err store' where b: "buildVersionedTableInfoStore P (dataStorage s)
      (registerDispatcher (newEmptyVersionedTableInfoStore tid) d startTS) startTS
      (finishedDDLTS s)
      (getSchemaName (s\<lparr>mu := True, dispatchersMap := (dispatchersMap s)(d \<mapsto> \<lparr>tableID = tid\<rparr>),
         tableInfoStoreMap := (tableInfoStoreMap s)(tid \<mapsto>
           registerDispatcher (newEmptyVersionedTableInfoStore tid) d startTS),
         mu := False\<rparr>)) = (err, store')"
    by (meson surj_pair)
  with assms(4) [of "dataStorage s"] have "err \<noteq> Some (ErrorsNew ''start ts is old than gc ts'')"
    by (metis fst_conv)
  with assms(1,2) None b show ?thesis
    by (cases err) (simp_all add: RegisterDispatcher_def RegisterDispatcher_newStore_def Let_def)
next
  case (Some store)
  let ?s1 = "s\<lparr>mu := True, dispatchersMap := (dispatchersMap s)(d \<mapsto> \<lparr>tableID = tid\<rparr>),
               tableInfoStoreMap := (tableInfoStoreMap s)(tid \<mapsto> registerDispatcher store d startTS),
               mu := False\<rparr>"
  obtain err built where b: "buildVersionedTableInfoStore P (dataStorage s)
      (newEmptyVersionedTableInfoStore tid) startTS
      (getFirstVersion (registerDispatcher store d startTS)) (getSchemaName ?s1) = (err, built)"
    by (meson surj_pair)
  with assms(4) [of "dataStorage s"] have "err \<noteq> Some (ErrorsNew ''start ts is old than gc ts'')"
    by (metis fst_conv)
  with assms(1,2,3) Some b show ?thesis
    by (cases err)
      (simp_all add: RegisterDispatcher_def RegisterDispatcher_oldStore_def Let_def
        split: option.splits)
qed

text \<open>
  The second check: dispatcher 8 registers on table 1 of the scenario store at start
  timestamp 40, before the first version 50 of its store, and the garbage collection
  timestamp moves from 0 to 45 while the second store is built. The call is rejected and
  the mutex is free when it has returned.
\<close>

lemma RegisterDispatcher_second_check:
  "fst (RegisterDispatcher scenarioStorage (\<lambda>gc. 45) 8 1 40 (scenarioStore 0))
     = Return (Some (ErrorsNew ''start ts is old than gc ts''))"
  "\<not> mu (snd (RegisterDispatcher scenarioStorage (\<lambda>gc. 45) 8 1 40 (scenarioStore 0)))"
  by (simp_all add: RegisterDispatcher_def RegisterDispatcher_oldStore_def scenarioStorage_def
      scenarioStore_def registerDispatcher_def getFirstVersion_def Let_def)

text \<open>
  C4. On the scenario store with garbage collection timestamp 100 and a free mutex,
  the registration of dispatcher 8 on table 2 at start timestamp 99 returns "start ts is
  old than gc ts", an error of kind TooOld, and the store it leaves has the mutex held.
  On that store the registration at 101 does not return, and neither does a second
  registration at 99: both wait for the mutex. On the store as it was before the rejected
  call, the registration at 101 returns nil.
\<close>

theorem RegisterDispatcher_rejection_keeps_mutex:
  "RegisterDispatcher scenarioStorage id 8 2 99 (scenarioStore 100)
     = (Return (Some (ErrorsNew ''start ts is old than gc ts'')), (scenarioStore 100)\<lparr>mu := True\<rparr>)
   \<and> errorKind (ErrorsNew ''start ts is old than gc ts'') = TooOld
   \<and> RegisterDispatcher scenarioStorage id 8 2 101 ((scenarioStore 100)\<lparr>mu := True\<rparr>)
     = (BlocksForever, (scenarioStore 100)\<lparr>mu := True\<rparr>)
   \<and> RegisterDispatcher scenarioStorage id 8 2 99 ((scenarioStore 100)\<lparr>mu := True\<rparr>)
     = (BlocksForever, (scenarioStore 100)\<lparr>mu := True\<rparr>)
   \<and> fst (RegisterDispatcher scenarioStorage id 8 2 101 (scenarioStore 100)) = Return None"
  by (simp add: RegisterDispatcher_def RegisterDispatcher_newStore_def scenarioStorage_def
      scenarioStore_def errorKind_def Let_def)

subsection \<open>Unregistering a dispatcher\<close>

text \<open>
  C7. When the call gets the mutex: for a dispatcher that is not in the dispatcher map
  it returns "dispatcher not found", an error of kind NotFound, and the store is as
  before. For a dispatcher that is in the dispatcher map and whose table has a versioned
  store, it returns nil, the dispatcher is removed from the dispatcher map and from the
  versioned store of its table, and the versioned store is deleted from the map of stores
  exactly when no other dispatcher is registered on it; nothing else changes.
\<close>

theorem UnregisterDispatcher_removes:
  assumes "\<not> mu s"
  shows "(dispatchersMap s d = None
            \<longrightarrow> UnregisterDispatcher d s = (Return (Some (ErrorsNew ''dispatcher not found'')), s)
                \<and> errorKind (ErrorsNew ''dispatcher not found'') = NotFound)
       \<and> (\<forall>info store.
             dispatchersMap s d = Some info \<and> tableInfoStoreMap s (tableID info) = Some store
             \<longrightarrow> UnregisterDispatcher d s
                   = (Return None,
                      s\<lparr>dispatchersMap := (dispatchersMap s)(d := None),
                        tableInfoStoreMap :=
                          (if dom (dispatchers store) - {d} = {}
                           then (tableInfoStoreMap s)(tableID info := None)
                           else (tableInfoStoreMap s)(tableID info \<mapsto>
                                  store\<lparr>dispatchers := (dispatchers store)(d := None)\<rparr>))\<rparr>))"
proof -
  from assms have "mu s = False" by simp
  then have free: "s\<lparr>mu := False\<rparr> = s"
    by (metis (full_types) schemaStore.surjective schemaStore.update_convs(3))
  have un: "\<And>store. unregisterDispatcher store d
               = (dom (dispatchers store) - {d} = {},
                  store\<lparr>dispatchers := (dispatchers store)(d := None)\<rparr>)"
    by (simp add: unregisterDispatcher_def Let_def del: dom_eq_empty_conv)
  have swap: "\<And>dm tm. s\<lparr>dispatchersMap := dm, tableInfoStoreMap := tm, mu := False\<rparr>
                = (s\<lparr>mu := False\<rparr>)\<lparr>dispatchersMap := dm, tableInfoStoreMap := tm\<rparr>"
    by simp
  show ?thesis
    using assms
    by (simp add: UnregisterDispatcher_def un errorKind_def Let_def swap free
        del: schemaStore.update_convs)
qed

theorem UnregisterDispatcher_removes_witness:
  "UnregisterDispatcher 9 (scenarioStore 0)
     = (Return (Some (ErrorsNew ''dispatcher not found'')), scenarioStore 0)
   \<and> UnregisterDispatcher 7 (scenarioStore 0)
     = (Return None,
        (scenarioStore 0)\<lparr>dispatchersMap := (dispatchersMap (scenarioStore 0))(7 := None),
                           tableInfoStoreMap := (tableInfoStoreMap (scenarioStore 0))(1 := None)\<rparr>)"
proof -
  have free: "\<not> mu (scenarioStore 0)" by (simp add: scenarioStore_def)
  have unknown: "dispatchersMap (scenarioStore 0) 9 = None" by (simp add: scenarioStore_def)
  have known: "dispatchersMap (scenarioStore 0) 7 = Some \<lparr>tableID = 1\<rparr>
       \<and> tableInfoStoreMap (scenarioStore 0) (tableID \<lparr>tableID = 1\<rparr>)
           = Some \<lparr>storeTableID = 1, infos = [(50, 0)], dispatchers = [7 \<mapsto> 60],
                   initialized = True\<rparr>"
    by (simp add: scenarioStore_def)
  note u = UnregisterDispatcher_removes [OF free]
  from u [of 9, THEN conjunct1, rule_format, OF unknown, THEN conjunct1]
  have a: "UnregisterDispatcher 9 (scenarioStore 0)
     = (Return (Some (ErrorsNew ''dispatcher not found'')), scenarioStore 0)" .
  from u [of 7, THEN conjunct2, rule_format, OF known]
  have b: "UnregisterDispatcher 7 (scenarioStore 0)
     = (Return None,
        (scenarioStore 0)\<lparr>dispatchersMap := (dispatchersMap (scenarioStore 0))(7 := None),
                           tableInfoStoreMap := (tableInfoStoreMap (scenarioStore 0))(1 := None)\<rparr>)"
    by simp
  from a b show ?thesis by (rule conjI)
qed

subsection \<open>The next DDL event of a dispatcher\<close>

text \<open>
  C8, as the source has it. For every store and every dispatcher, registered or not,
  \<^verbatim>\<open>GetNextDDLEvent\<close> returns no event, the timestamp 0 and no error.
\<close>

theorem GetNextDDLEvent_returns_nothing:
  "GetNextDDLEvent s dispatcherID = (None, 0, None)"
  by (simp add: GetNextDDLEvent_def)

text \<open>
  C8 as stated does not hold. On the scenario store, dispatcher 7 is registered on
  table 1 with send timestamp 60, the store of table 1 holds a version of timestamp 50,
  below 60, and the dispatcher has consumed nothing; \<^verbatim>\<open>GetNextDDLEvent\<close> returns no
  event.
\<close>

theorem GetNextDDLEvent_counterexample:
  "dispatchersMap (scenarioStore 0) 7 = Some \<lparr>tableID = 1\<rparr>
   \<and> dispatchers (the (tableInfoStoreMap (scenarioStore 0) 1)) 7 = Some 60
   \<and> infos (the (tableInfoStoreMap (scenarioStore 0) 1)) = [(50, 0)]
   \<and> (50 :: 64 word) < 60
   \<and> fst (GetNextDDLEvent (scenarioStore 0) 7) = None"
  by (simp add: GetNextDDLEvent_def scenarioStore_def)

section \<open>Properties of the parallel dynamic stream\<close>

text \<open>
  C9. For every path \<open>p\<close> whose hash is in the range of the sub-streams, \<^verbatim>\<open>hash\<close>
  returns the result of the configured hasher, and \<^verbatim>\<open>In\<close>, \<^verbatim>\<open>Wake\<close>, \<^verbatim>\<open>AddPath\<close> and
  \<^verbatim>\<open>RemovePath\<close> all go to the sub-stream at that index: the channels returned are its
  channels, the error returned is its error, and it is the only sub-stream that
  changes. \<^verbatim>\<open>SetAreaSettings\<close> calls every sub-stream and changes nothing else. A hash
  result at or above the number of sub-streams makes each of the four operations panic
  in \<^verbatim>\<open>hash\<close>. The hasher's result is used as it is: a negative one passes \<^verbatim>\<open>hash\<close> and
  panics when the slice is indexed.
\<close>

theorem parallel_stream_forwards:
  "(0 \<le> pathHaser s p \<and> pathHaser s p < int (length (dynamicStreams s))
      \<longrightarrow> hash s [p] = Inr (pathHaser s p)
        \<and> In I s [p] = Inr (dsIn I (dynamicStreams s ! nat (pathHaser s p)))
        \<and> Wake I s [p] = Inr (dsWake I (dynamicStreams s ! nat (pathHaser s p)))
        \<and> AddPath I s p dest area
            = Inr (fst (dsAddPath I (dynamicStreams s ! nat (pathHaser s p)) p dest area),
                   s\<lparr>dynamicStreams := (dynamicStreams s)
                        [nat (pathHaser s p) :=
                           snd (dsAddPath I (dynamicStreams s ! nat (pathHaser s p)) p dest area)]\<rparr>)
        \<and> RemovePath I s p
            = Inr (fst (dsRemovePath I (dynamicStreams s ! nat (pathHaser s p)) p),
                   s\<lparr>dynamicStreams := (dynamicStreams s)
                        [nat (pathHaser s p) :=
                           snd (dsRemovePath I (dynamicStreams s ! nat (pathHaser s p)) p)]\<rparr>))
   \<and> length (dynamicStreams (SetAreaSettings I s a settings)) = length (dynamicStreams s)
   \<and> (\<forall>i < length (dynamicStreams s).
         dynamicStreams (SetAreaSettings I s a settings) ! i
           = dsSetAreaSettings I (dynamicStreams s ! i) a settings)
   \<and> pathHaser (SetAreaSettings I s a settings) = pathHaser s
   \<and> feedbackChan (SetAreaSettings I s a settings) = feedbackChan s
   \<and> (pathHaser s p \<ge> int (length (dynamicStreams s))
      \<longrightarrow> hash s [p] = Inl (PanicMsg ''invalid hash result'')
        \<and> In I s [p] = Inl (PanicMsg ''invalid hash result'')
        \<and> Wake I s [p] = Inl (PanicMsg ''invalid hash result'')
        \<and> AddPath I s p dest area = Inl (PanicMsg ''invalid hash result'')
        \<and> RemovePath I s p = Inl (PanicMsg ''invalid hash result''))
   \<and> (pathHaser s p < 0
      \<longrightarrow> In I s [p] = Inl (IndexOutOfRange (pathHaser s p))
        \<and> Wake I s [p] = Inl (IndexOutOfRange (pathHaser s p))
        \<and> AddPath I s p dest area = Inl (IndexOutOfRange (pathHaser s p))
        \<and> RemovePath I s p = Inl (IndexOutOfRange (pathHaser s p)))"
proof (intro conjI impI allI)
  assume "0 \<le> pathHaser s p \<and> pathHaser s p < int (length (dynamicStreams s))"
  then have h: "hash s [p] = Inr (pathHaser s p)"
    and at: "streamAt (dynamicStreams s) (pathHaser s p)
               = Inr (dynamicStreams s ! nat (pathHaser s p))"
    by (simp_all add: hash_def streamAt_def)
  show "hash s [p] = Inr (pathHaser s p)" by (rule h)
  show "In I s [p] = Inr (dsIn I (dynamicStreams s ! nat (pathHaser s p)))"
    by (simp add: In_def h at)
  show "Wake I s [p] = Inr (dsWake I (dynamicStreams s ! nat (pathHaser s p)))"
    by (simp add: Wake_def h at)
  show "AddPath I s p dest area
          = Inr (fst (dsAddPath I (dynamicStreams s ! nat (pathHaser s p)) p dest area),
                 s\<lparr>dynamicStreams := (dynamicStreams s)
                      [nat (pathHaser s p) :=
                         snd (dsAddPath I (dynamicStreams s ! nat (pathHaser s p)) p dest area)]\<rparr>)"
    by (simp add: AddPath_def h at split: prod.splits)
  show "RemovePath I s p
          = Inr (fst (dsRemovePath I (dynamicStreams s ! nat (pathHaser s p)) p),
                 s\<lparr>dynamicStreams := (dynamicStreams s)
                      [nat (pathHaser s p) :=
                         snd (dsRemovePath I (dynamicStreams s ! nat (pathHaser s p)) p)]\<rparr>)"
    by (simp add: RemovePath_def h at split: prod.splits)
next
  show "length (dynamicStreams (SetAreaSettings I s a settings)) = length (dynamicStreams s)"
    by (simp add: SetAreaSettings_def)
next
  fix i assume "i < length (dynamicStreams s)"
  then show "dynamicStreams (SetAreaSettings I s a settings) ! i
               = dsSetAreaSettings I (dynamicStreams s ! i) a settings"
    by (simp add: SetAreaSettings_def)
next
  show "pathHaser (SetAreaSettings I s a settings) = pathHaser s"
    by (simp add: SetAreaSettings_def)
next
  show "feedbackChan (SetAreaSettings I s a settings) = feedbackChan s"
    by (simp add: SetAreaSettings_def)
next
  assume "int (length (dynamicStreams s)) \<le> pathHaser s p"
  then have h: "hash s [p] = Inl (PanicMsg ''invalid hash result'')"
    by (simp add: hash_def)
  show "hash s [p] = Inl (PanicMsg ''invalid hash result'')" by (rule h)
  show "In I s [p] = Inl (PanicMsg ''invalid hash result'')" by (simp add: In_def h)
  show "Wake I s [p] = Inl (PanicMsg ''invalid hash result'')" by (simp add: Wake_def h)
  show "AddPath I s p dest area = Inl (PanicMsg ''invalid hash result'')"
    by (simp add: AddPath_def h)
  show "RemovePath I s p = Inl (PanicMsg ''invalid hash result'')"
    by (simp add: RemovePath_def h)
next
  assume neg: "pathHaser s p < 0"
  then have h: "hash s [p] = Inr (pathHaser s p)"
    and at: "streamAt (dynamicStreams s) (pathHaser s p) = Inl (IndexOutOfRange (pathHaser s p))"
    by (simp_all add: hash_def streamAt_def)
  show "In I s [p] = Inl (IndexOutOfRange (pathHaser s p))" by (simp add: In_def h at)
  show "Wake I s [p] = Inl (IndexOutOfRange (pathHaser s p))" by (simp add: Wake_def h at)
  show "AddPath I s p dest area = Inl (IndexOutOfRange (pathHaser s p))"
    by (simp add: AddPath_def h at)
  show "RemovePath I s p = Inl (IndexOutOfRange (pathHaser s p))"
    by (simp add: RemovePath_def h at)
qed

theorem parallel_stream_forwards_witness:
  "In scenarioStream (scenarioParallel (\<lambda>p. int (p mod 2))) [3] = Inr 20
   \<and> Wake scenarioStream (scenarioParallel (\<lambda>p. int (p mod 2))) [3] = Inr 21
   \<and> AddPath scenarioStream (scenarioParallel (\<lambda>p. int (p mod 2))) 3 7 []
       = Inr (None, (scenarioParallel (\<lambda>p. int (p mod 2)))
                      \<lparr>dynamicStreams := [(10, []), (20, [(3, 7)])]\<rparr>)
   \<and> RemovePath scenarioStream (scenarioParallel (\<lambda>p. int (p mod 2))) 3
       = Inr (Some (ErrorsNew ''path missing''),
              (scenarioParallel (\<lambda>p. int (p mod 2)))\<lparr>dynamicStreams := [(10, []), (20, [])]\<rparr>)
   \<and> In scenarioStream (scenarioParallel (\<lambda>p. 2)) [3] = Inl (PanicMsg ''invalid hash result'')
   \<and> AddPath scenarioStream (scenarioParallel (\<lambda>p. 2)) 3 7 []
       = Inl (PanicMsg ''invalid hash result'')"
proof -
  let ?s = "scenarioParallel (\<lambda>p. int (p mod 2))"
  let ?t = "scenarioParallel (\<lambda>p. 2)"
  have inrange: "0 \<le> pathHaser ?s 3 \<and> pathHaser ?s 3 < int (length (dynamicStreams ?s))"
    by (simp add: scenarioParallel_def)
  have above: "pathHaser ?t 3 \<ge> int (length (dynamicStreams ?t))"
    by (simp add: scenarioParallel_def)
  note ok = parallel_stream_forwards
    [of ?s 3 scenarioStream 7 "[]", THEN conjunct1, rule_format, OF inrange]
  note bad = parallel_stream_forwards
    [of ?t 3 scenarioStream 7 "[]", THEN conjunct2, THEN conjunct2, THEN conjunct2,
     THEN conjunct2, THEN conjunct2, THEN conjunct1, rule_format, OF above]
  from ok bad show ?thesis
    by (simp add: scenarioParallel_def scenarioStream_def)
qed

text \<open>On the nil channel no send completes, so it stays the nil channel.\<close>

lemma chan_after_sends_nil: "chan_after_sends None vs = None"
  by (induction vs) simp_all

text \<open>
  C10. With \<^verbatim>\<open>EnableMemoryControl\<close> set, \<^verbatim>\<open>Feedback()\<close> of a new parallel stream is a
  channel of capacity 1024 and a value sent on it is received. Without it, \<^verbatim>\<open>Feedback()\<close>
  is the nil channel, and whatever values senders try to send, no receive on it
  completes. In both cases every sub-stream is constructed with the channel that
  \<^verbatim>\<open>Feedback()\<close> returns.
\<close>

theorem feedback_channel_only_with_memory_control:
  "(EnableMemoryControl option
      \<longrightarrow> Feedback (newParallelDynamicStream I streamCount hasher handler option)
            = Some \<lparr>capacity = 1024, buffer = []\<rparr>
        \<and> chan_receive (chan_after_sends
             (Feedback (newParallelDynamicStream I streamCount hasher handler option)) [v])
            = Some (v, Some \<lparr>capacity = 1024, buffer = []\<rparr>))
   \<and> (\<not> EnableMemoryControl option
      \<longrightarrow> Feedback (newParallelDynamicStream I streamCount hasher handler option) = None
        \<and> (\<forall>vs. chan_receive (chan_after_sends
               (Feedback (newParallelDynamicStream I streamCount hasher handler option)) vs)
             = None))
   \<and> dynamicStreams (newParallelDynamicStream I streamCount hasher handler option)
       = replicate (nat streamCount)
           (newDynamicStreamImpl I handler option
              (Feedback (newParallelDynamicStream I streamCount hasher handler option)))"
  by (simp add: newParallelDynamicStream_def Feedback_def make_chan_def Let_def
      chan_after_sends_nil)

theorem feedback_channel_only_with_memory_control_witness:
  "Feedback (newParallelDynamicStream scenarioStream 2 (\<lambda>p. int (p mod 2)) ()
       \<lparr>EnableMemoryControl = True\<rparr>)
     = Some \<lparr>capacity = 1024, buffer = []\<rparr>
   \<and> Feedback (newParallelDynamicStream scenarioStream 2 (\<lambda>p. int (p mod 2)) ()
       \<lparr>EnableMemoryControl = False\<rparr>)
     = None
   \<and> chan_receive (chan_after_sends
        (Feedback (newParallelDynamicStream scenarioStream 2 (\<lambda>p. int (p mod 2)) ()
           \<lparr>EnableMemoryControl = False\<rparr>)) [1, 2, 3 :: nat])
     = None"
proof -
  have on: "EnableMemoryControl \<lparr>EnableMemoryControl = True\<rparr>" by simp
  have off: "\<not> EnableMemoryControl \<lparr>EnableMemoryControl = False\<rparr>" by simp
  note a = feedback_channel_only_with_memory_control
    [of "\<lparr>EnableMemoryControl = True\<rparr>" scenarioStream 2 "\<lambda>p. int (p mod 2)" "()",
     THEN conjunct1, rule_format, OF on, THEN conjunct1]
  note b = feedback_channel_only_with_memory_control
    [of "\<lparr>EnableMemoryControl = False\<rparr>" scenarioStream 2 "\<lambda>p. int (p mod 2)" "()",
     THEN conjunct2, THEN conjunct1, rule_format, OF off]
  from b have b1: "Feedback (newParallelDynamicStream scenarioStream 2 (\<lambda>p. int (p mod 2)) ()
       \<lparr>EnableMemoryControl = False\<rparr>) = None" by (rule conjunct1)
  from b have "\<forall>vs. chan_receive (chan_after_sends
        (Feedback (newParallelDynamicStream scenarioStream 2 (\<lambda>p. int (p mod 2)) ()
           \<lparr>EnableMemoryControl = False\<rparr>)) vs) = None" by (rule conjunct2)
  then have b2: "chan_receive (chan_after_sends
        (Feedback (newParallelDynamicStream scenarioStream 2 (\<lambda>p. int (p mod 2)) ()
           \<lparr>EnableMemoryControl = False\<rparr>)) [1, 2, 3 :: nat]) = None" by (rule spec)
  show ?thesis by (intro conjI a b1 b2)
qed

end
